theory Spec2Isabelle
  imports Complex_Main
begin

section \<open>Overview\<close>

text \<open>
  A model of the number utilities of the wallet (conversions between base-unit amounts,
  decimal strings and fiat display values, and the decimal-string predicate) and of its
  settings reducer. Amounts are the integers bn.js holds; strings are lists of
  characters; an exception is an \<open>Inl\<close> result. The utilities call bn.js, ethjs-unit
  and number-to-bn: each call is modelled by what the library does with the arguments
  the utilities pass, and the place says so. What the engine prints for
  \<open>Math.pow(10, d)\<close> from 22 decimals on is a parameter \<open>pw\<close> of the conversions,
  and what depends on the binary format of numbers is a parameter \<open>env\<close> of the
  fiat functions.
\<close>

section \<open>Errors raised by the conversion functions\<close>

text \<open>
  The three \<open>throw new Error(...)\<close> statements of \<open>toTokenMinimalUnit\<close> are told apart
  by their messages (invalid value, too many decimal points, too many decimal places).
  The remaining constructors are the failures of the library calls the functions make:
  \<open>convert.numberToString\<close> of ethjs-unit rejects a string that does not match
  \<open>/^-?[0-9.]+$/\<close>; \<open>BN.prototype.mul\<close> allocates
  \<open>new Array(this.length + num.length)\<close>, which is \<open>new Array(NaN)\<close> and a
  RangeError when \<open>num\<close> is a boolean; reading \<open>[1]\<close> of a \<open>null\<close> match result
  is a TypeError; bn.js asserts that a divisor is not zero.
\<close>

datatype error =
    InvalidNumberError
  | TooManyDecimalPointsError
  | TooManyDecimalPlacesError
  | NumberToStringError
  | RangeError
  | TypeError
  | AssertionError

section \<open>Regular expressions\<close>

text \<open>
  The regular expressions of the source are kept as syntax and matched by derivatives.
  \<open>Atom P\<close> is a character class. All of them are anchored at the start; \<open>matches\<close>
  is the anchored test \<open>/^r$/\<close>.
\<close>

datatype rexp =
    Zero
  | One
  | Atom "char \<Rightarrow> bool"
  | Alt rexp rexp
  | Seq rexp rexp
  | Star rexp

fun nullable :: "rexp \<Rightarrow> bool" where
  "nullable Zero = False"
| "nullable One = True"
| "nullable (Atom P) = False"
| "nullable (Alt r s) = (nullable r \<or> nullable s)"
| "nullable (Seq r s) = (nullable r \<and> nullable s)"
| "nullable (Star r) = True"

text \<open>Derivatives are built with constructors that drop \<open>Zero\<close> and \<open>One\<close>.\<close>

definition alt :: "rexp \<Rightarrow> rexp \<Rightarrow> rexp" where
  "alt r s = (case r of Zero \<Rightarrow> s | _ \<Rightarrow> (case s of Zero \<Rightarrow> r | _ \<Rightarrow> Alt r s))"

definition seq :: "rexp \<Rightarrow> rexp \<Rightarrow> rexp" where
  "seq r s = (case r of Zero \<Rightarrow> Zero | One \<Rightarrow> s | _ \<Rightarrow> Seq r s)"

fun deriv :: "char \<Rightarrow> rexp \<Rightarrow> rexp" where
  "deriv c Zero = Zero"
| "deriv c One = Zero"
| "deriv c (Atom P) = (if P c then One else Zero)"
| "deriv c (Alt r s) = alt (deriv c r) (deriv c s)"
| "deriv c (Seq r s) =
     (if nullable r then alt (seq (deriv c r) s) (deriv c s) else seq (deriv c r) s)"
| "deriv c (Star r) = seq (deriv c r) (Star r)"

fun matches :: "rexp \<Rightarrow> string \<Rightarrow> bool" where
  "matches r [] = nullable r"
| "matches r (c # cs) = matches (deriv c r) cs"

definition Plus :: "rexp \<Rightarrow> rexp" where
  "Plus r = Seq r (Star r)"

definition Opt :: "rexp \<Rightarrow> rexp" where
  "Opt r = Alt r One"

definition Chr :: "char \<Rightarrow> rexp" where
  "Chr c = Atom (\<lambda>x. x = c)"

definition is_digit :: "char \<Rightarrow> bool" where
  "is_digit c = (c \<in> set ''0123456789'')"

definition is_nonzero_digit :: "char \<Rightarrow> bool" where
  "is_nonzero_digit c = (c \<in> set ''123456789'')"

text \<open>
  A greedy quantifier followed by the rest of a pattern gives back characters one at a
  time until the rest matches: the first success is the longest prefix that matches.
  \<open>greedy_prefix P s n\<close> tries the prefixes of \<open>s\<close> of length \<open>n\<close>, \<open>n - 1\<close>, ...
\<close>

fun greedy_prefix :: "(string \<Rightarrow> bool) \<Rightarrow> string \<Rightarrow> nat \<Rightarrow> string option" where
  "greedy_prefix P s 0 = (if P [] then Some [] else None)"
| "greedy_prefix P s (Suc n) =
     (if P (take (Suc n) s) then Some (take (Suc n) s) else greedy_prefix P s n)"

section \<open>Arbitrary-precision integers (bn.js) and decimal strings\<close>

definition digit_char :: "nat \<Rightarrow> char" where
  "digit_char n = ''0123456789'' ! n"

text \<open>\<open>BN.prototype.toString(10)\<close>: the decimal numeral, with a sign when negative.\<close>

fun nat_to_dec :: "nat \<Rightarrow> string" where
  "nat_to_dec n =
     (if n < 10 then [digit_char n] else nat_to_dec (n div 10) @ [digit_char (n mod 10)])"

declare nat_to_dec.simps [simp del]

definition BN_toString :: "int \<Rightarrow> string" where
  "BN_toString n = (if n < 0 then CHR ''-'' # nat_to_dec (nat (- n)) else nat_to_dec (nat n))"

text \<open>
  \<open>new BN(string)\<close> in base 10. The parser of bn.js 4 (\<open>parseBase\<close>) does not check its
  characters: it takes \<open>charCode - 48\<close>, reads \<open>a..\<close> and \<open>A..\<close> as the digits from
  ten upwards, and accumulates \<open>r * 10 + digit\<close>. On a string of decimal digits this is
  the number the string denotes.
\<close>

definition BN_digit :: "char \<Rightarrow> int" where
  "BN_digit ch =
     (let c = int (of_char ch) - 48
      in if c \<ge> 49 then c - 49 + 10 else if c \<ge> 17 then c - 17 + 10 else c)"

definition parseBase :: "string \<Rightarrow> int" where
  "parseBase s = foldl (\<lambda>r ch. r * 10 + BN_digit ch) 0 s"

definition BN_of_string :: "string \<Rightarrow> int" where
  "BN_of_string s = (if take 1 s = ''-'' then - parseBase (drop 1 s) else parseBase s)"

definition toBN :: "string \<Rightarrow> int" where
  "toBN v = BN_of_string v"

text \<open>
  \<open>Math.pow(10, decimals).toString()\<close>. The power is a double; \<open>Number.prototype.toString\<close>
  prints it as a plain decimal numeral below \<open>1e21\<close> and in exponent notation from there
  on. Up to 21 decimals the power is the exact one. Beyond, the double \<open>Math.pow\<close>
  returns need not be the nearest one and differs between engines (one prints
  \<open>9.999999999999999e+25\<close> at 26 decimals), and it is \<open>Infinity\<close> past \<open>1e308\<close>:
  what is printed from 22 decimals on is the parameter \<open>pw\<close>.
\<close>

definition pow10_toString :: "(nat \<Rightarrow> string) \<Rightarrow> nat \<Rightarrow> string" where
  "pow10_toString pw decimals =
     (if decimals \<le> 20 then CHR ''1'' # replicate decimals (CHR ''0'')
      else if decimals = 21 then ''1e+21''
      else pw decimals)"

text \<open>
  \<open>x.mul(negative)\<close> where \<open>negative\<close> is the boolean \<open>true\<close>: the call never
  returns a product.
\<close>

definition BN_mul_boolean :: "int \<Rightarrow> bool \<Rightarrow> error + int" where
  "BN_mul_boolean x b = Inl RangeError"

text \<open>The two padding loops.\<close>

function padStart0 :: "nat \<Rightarrow> string \<Rightarrow> string" where
  "padStart0 decimals fraction =
     (if length fraction < decimals then padStart0 decimals (CHR ''0'' # fraction)
      else fraction)"
  by pat_completeness auto
termination
  by (relation "measure (\<lambda>(d, s). d - length s)") auto

declare padStart0.simps [simp del]

function padEnd0 :: "nat \<Rightarrow> string \<Rightarrow> string" where
  "padEnd0 decimals fraction =
     (if length fraction < decimals then padEnd0 decimals (fraction @ ''0'')
      else fraction)"
  by pat_completeness auto
termination
  by (relation "measure (\<lambda>(d, s). d - length s)") auto

declare padEnd0.simps [simp del]

text \<open>
  \<open>fraction.match(/^([0-9]*[1-9]|0)(0*)/)\<close>, group 1; \<open>None\<close> is the \<open>null\<close> of a
  failed match. The first alternative is tried first, its star greedily; the second
  group matches whatever follows, so it never forces the first to give back more.
\<close>

definition fraction_re :: rexp where
  "fraction_re = Seq (Star (Atom is_digit)) (Atom is_nonzero_digit)"

definition match_fraction :: "string \<Rightarrow> string option" where
  "match_fraction s =
     (case greedy_prefix (matches fraction_re) s (length s) of
        Some g \<Rightarrow> Some g
      | None \<Rightarrow> (if take 1 s = ''0'' then Some ''0'' else None))"

section \<open>fromTokenMinimalUnit\<close>

text \<open>
  \<open>minimalInput\<close> is an integer or a BN instance; \<open>numberToBN\<close> gives the BN of the
  same value. \<open>decimals\<close> is a non-negative integer.
\<close>

definition fromTokenMinimalUnit :: "(nat \<Rightarrow> string) \<Rightarrow> int \<Rightarrow> nat \<Rightarrow> error + string" where
  "fromTokenMinimalUnit pw minimalInput decimals =
     (let minimal0 = minimalInput;
          negative = (minimal0 < 0);
          base = toBN (pow10_toString pw decimals)
      in case (if negative then BN_mul_boolean minimal0 negative else Inr minimal0) of
           Inl e \<Rightarrow> Inl e
         | Inr minimal \<Rightarrow>
             if base = 0 then Inl AssertionError
             else
               let fraction0 = padStart0 decimals (BN_toString (minimal mod base))
               in case match_fraction fraction0 of
                    None \<Rightarrow> Inl TypeError
                  | Some fraction \<Rightarrow>
                      let whole = BN_toString (minimal div base);
                          value = whole @ (if fraction = ''0'' then [] else CHR ''.'' # fraction)
                      in Inr (if negative then CHR ''-'' # value else value))"

section \<open>toTokenMinimalUnit\<close>

text \<open>
  \<open>convert.numberToString\<close> of ethjs-unit on a string argument: the string itself
  when it matches \<open>/^-?[0-9.]+$/\<close>, an error otherwise.
\<close>

definition number_re :: rexp where
  "number_re = Seq (Opt (Chr (CHR ''-''))) (Plus (Atom (\<lambda>c. is_digit c \<or> c = CHR ''.'')))"

definition numberToString :: "string \<Rightarrow> error + string" where
  "numberToString arg = (if matches number_re arg then Inr arg else Inl NumberToStringError)"

text \<open>\<open>value.split('.')\<close>.\<close>

fun split_dot :: "string \<Rightarrow> string list" where
  "split_dot [] = [[]]"
| "split_dot (c # cs) =
     (if c = CHR ''.'' then [] # split_dot cs
      else (case split_dot cs of [] \<Rightarrow> [[c]] | w # ws \<Rightarrow> (c # w) # ws))"

text \<open>An array read: \<open>undefined\<close> past the end.\<close>

definition nth_opt :: "'a list \<Rightarrow> nat \<Rightarrow> 'a option" where
  "nth_opt xs i = (if i < length xs then Some (xs ! i) else None)"

text \<open>\<open>if (!s) s = '0'\<close>: both \<open>undefined\<close> and the empty string are falsy.\<close>

definition or_zero :: "string option \<Rightarrow> string" where
  "or_zero s = (case s of None \<Rightarrow> ''0'' | Some w \<Rightarrow> if w = [] then ''0'' else w)"

definition toTokenMinimalUnit :: "(nat \<Rightarrow> string) \<Rightarrow> string \<Rightarrow> nat \<Rightarrow> error + int" where
  "toTokenMinimalUnit pw tokenValue decimals =
     (let base = toBN (pow10_toString pw decimals)
      in case numberToString tokenValue of
           Inl e \<Rightarrow> Inl e
         | Inr value0 \<Rightarrow>
             let negative = (take 1 value0 = ''-'');
                 value = (if negative then drop 1 value0 else value0)
             in if value = ''.'' then Inl InvalidNumberError
                else
                  let comps = split_dot value
                  in if length comps > 2 then Inl TooManyDecimalPointsError
                     else
                       let whole = or_zero (nth_opt comps 0);
                           fraction0 = or_zero (nth_opt comps 1)
                       in if length fraction0 > decimals then Inl TooManyDecimalPlacesError
                          else
                            let fraction = padEnd0 decimals fraction0;
                                tokenMinimal0 = BN_of_string whole * base + BN_of_string fraction
                            in case (if negative then BN_mul_boolean tokenMinimal0 negative
                                     else Inr tokenMinimal0) of
                                 Inl e \<Rightarrow> Inl e
                               | Inr tokenMinimal \<Rightarrow>
                                   Inr (BN_of_string (BN_toString tokenMinimal)))"

text \<open>The round trip of the two conversions.\<close>

definition roundTrip :: "(nat \<Rightarrow> string) \<Rightarrow> int \<Rightarrow> nat \<Rightarrow> error + int" where
  "roundTrip pw a d =
     (case fromTokenMinimalUnit pw a d of
        Inl e \<Rightarrow> Inl e
      | Inr s \<Rightarrow> toTokenMinimalUnit pw s d)"

section \<open>JavaScript numbers and values\<close>

text \<open>
  A double is \<open>NaN\<close>, an infinity (\<open>Inf True\<close> is \<open>+Infinity\<close>) or a finite
  value, kept as the rational it denotes; the two zeros are one value, as they print
  the same and no divisor here is a zero. What depends on the binary format is a
  parameter of the model: the rounding of an exact result to a double (to an infinity
  on overflow), the conversion of a string to a number, and the printing of a finite
  non-zero double. The last parameter is the upper-casing of a string that holds
  characters outside ASCII, which follows the Unicode tables.
\<close>

datatype jsnum = NaN | Inf bool | Fin rat

record js_env =
  round_double :: "rat \<Rightarrow> jsnum"
  string_to_number :: "string \<Rightarrow> jsnum"
  number_to_string :: "rat \<Rightarrow> string"
  upper_case_other :: "string \<Rightarrow> string"

datatype jsval =
    JUndefined
  | JNull
  | JBool bool
  | JNum jsnum
  | JStr string
  | JBN int

text \<open>\<open>ToNumber\<close>, the coercion the operator \<open>*\<close> applies to its operands.\<close>

fun to_number :: "js_env \<Rightarrow> jsval \<Rightarrow> jsnum" where
  "to_number env JUndefined = NaN"
| "to_number env JNull = Fin 0"
| "to_number env (JBool b) = Fin (if b then 1 else 0)"
| "to_number env (JNum x) = x"
| "to_number env (JStr s) = string_to_number env s"
| "to_number env (JBN n) = string_to_number env (BN_toString n)"

fun js_mul :: "js_env \<Rightarrow> jsnum \<Rightarrow> jsnum \<Rightarrow> jsnum" where
  "js_mul env NaN y = NaN"
| "js_mul env (Inf p) NaN = NaN"
| "js_mul env (Fin a) NaN = NaN"
| "js_mul env (Inf p) (Inf q) = Inf (p = q)"
| "js_mul env (Inf p) (Fin b) = (if b = 0 then NaN else Inf (p = (0 < b)))"
| "js_mul env (Fin a) (Inf q) = (if a = 0 then NaN else Inf ((0 < a) = q))"
| "js_mul env (Fin a) (Fin b) = (if a * b = 0 then Fin 0 else round_double env (a * b))"

fun js_div :: "js_env \<Rightarrow> jsnum \<Rightarrow> jsnum \<Rightarrow> jsnum" where
  "js_div env NaN y = NaN"
| "js_div env (Inf p) NaN = NaN"
| "js_div env (Fin a) NaN = NaN"
| "js_div env (Inf p) (Inf q) = NaN"
| "js_div env (Inf p) (Fin b) = Inf (p = (0 \<le> b))"
| "js_div env (Fin a) (Inf q) = Fin 0"
| "js_div env (Fin a) (Fin b) =
     (if b = 0 then (if a = 0 then NaN else Inf (0 < a))
      else if a = 0 then Fin 0 else round_double env (a / b))"

text \<open>\<open>Math.round\<close>: the nearest integer, a half rounded up.\<close>

fun Math_round :: "jsnum \<Rightarrow> jsnum" where
  "Math_round (Fin a) = Fin (of_int \<lfloor>a + 1 / 2\<rfloor>)"
| "Math_round x = x"

text \<open>
  \<open>Math.pow(10, n)\<close> for a non-negative integer \<open>n\<close>: exact while the power is a
  double (up to \<open>1e22\<close>), rounded beyond.
\<close>

definition Math_pow10 :: "js_env \<Rightarrow> nat \<Rightarrow> jsnum" where
  "Math_pow10 env n = (if n \<le> 22 then Fin (10 ^ n) else round_double env (10 ^ n))"

text \<open>
  \<open>parseFloat\<close> of a number prints it and reads it back, which gives the number
  again; \<open>isNaN\<close>; and the printing of a number inside a template literal.
\<close>

definition parseFloat :: "jsnum \<Rightarrow> jsnum" where
  "parseFloat x = x"

definition isNaN :: "jsnum \<Rightarrow> bool" where
  "isNaN x = (x = NaN)"

fun js_toString :: "js_env \<Rightarrow> jsnum \<Rightarrow> string" where
  "js_toString env NaN = ''NaN''"
| "js_toString env (Inf p) = (if p then ''Infinity'' else ''-Infinity'')"
| "js_toString env (Fin a) = (if a = 0 then ''0'' else number_to_string env a)"

text \<open>Truthiness (\<open>!wei\<close> is its negation) and \<open>BN.isBN\<close>.\<close>

fun truthy :: "jsval \<Rightarrow> bool" where
  "truthy JUndefined = False"
| "truthy JNull = False"
| "truthy (JBool b) = b"
| "truthy (JNum x) = (x \<noteq> NaN \<and> x \<noteq> Fin 0)"
| "truthy (JStr s) = (s \<noteq> [])"
| "truthy (JBN n) = True"

fun isBN :: "jsval \<Rightarrow> bool" where
  "isBN (JBN n) = True"
| "isBN v = False"

text \<open>
  \<open>String.prototype.toUpperCase\<close>: on a string of ASCII characters the letters
  \<open>a\<close> to \<open>z\<close> become \<open>A\<close> to \<open>Z\<close> and nothing else changes; a string
  (of bytes, in UTF-8) with a character outside ASCII is left to the parameter.
\<close>

definition upper_char :: "char \<Rightarrow> char" where
  "upper_char c =
     (case map_of (zip ''abcdefghijklmnopqrstuvwxyz'' ''ABCDEFGHIJKLMNOPQRSTUVWXYZ'') c of
        Some u \<Rightarrow> u
      | None \<Rightarrow> c)"

definition is_ascii :: "char \<Rightarrow> bool" where
  "is_ascii c = (of_char c < (128::nat))"

definition toUpperCase :: "js_env \<Rightarrow> string \<Rightarrow> string" where
  "toUpperCase env s = (if list_all is_ascii s then map upper_char s else upper_case_other env s)"

section \<open>Fiat conversions\<close>

text \<open>
  \<open>fromWei(value, 'ether')\<close> of ethjs-unit on a BN: the algorithm of
  \<open>fromTokenMinimalUnit\<close> with the base \<open>10^18\<close> taken from the unit table and the
  sign removed by a multiplication with \<open>new BN(-1)\<close>.
\<close>

definition fromWei :: "int \<Rightarrow> error + string" where
  "fromWei weiInput =
     (let negative = (weiInput < 0);
          base = (10 ^ 18 :: int);
          wei = (if negative then weiInput * (- 1) else weiInput);
          fraction0 = padStart0 18 (BN_toString (wei mod base))
      in case match_fraction fraction0 of
           None \<Rightarrow> Inl TypeError
         | Some fraction \<Rightarrow>
             let whole = BN_toString (wei div base);
                 value = whole @ (if fraction = ''0'' then [] else CHR ''.'' # fraction)
             in Inr (if negative then CHR ''-'' # value else value))"

definition weiToFiatNumber :: "js_env \<Rightarrow> int \<Rightarrow> jsval \<Rightarrow> nat \<Rightarrow> error + jsnum" where
  "weiToFiatNumber env wei conversionRate decimalsToShow =
     (let base = Math_pow10 env decimalsToShow
      in case fromWei wei of
           Inl e \<Rightarrow> Inl e
         | Inr eth \<Rightarrow>
             let value0 =
                   parseFloat
                     (js_div env
                        (Math_round
                           (js_mul env
                              (js_mul env (to_number env (JStr eth)) (to_number env conversionRate))
                              base))
                        base);
                 value = (if isNaN value0 then Fin 0 else value0)
             in Inr value)"

definition weiToFiat :: "js_env \<Rightarrow> jsval \<Rightarrow> jsval \<Rightarrow> string \<Rightarrow> error + string" where
  "weiToFiat env wei conversionRate currencyCode =
     (if \<not> truthy wei \<or> \<not> isBN wei then Inr (''0.00 '' @ currencyCode)
      else case wei of
             JBN n \<Rightarrow>
               (case weiToFiatNumber env n conversionRate 5 of
                  Inl e \<Rightarrow> Inl e
                | Inr value \<Rightarrow> Inr (js_toString env value @ '' '' @ currencyCode))
           | _ \<Rightarrow> Inr (''0.00 '' @ currencyCode))"

definition balanceToFiatNumber :: "js_env \<Rightarrow> jsval \<Rightarrow> jsval \<Rightarrow> jsval \<Rightarrow> nat \<Rightarrow> jsnum" where
  "balanceToFiatNumber env balance conversionRate exchangeRate decimalsToShow =
     (let base = Math_pow10 env decimalsToShow;
          fiatFixed0 =
            parseFloat
              (js_div env
                 (Math_round
                    (js_mul env
                       (js_mul env
                          (js_mul env (to_number env balance) (to_number env conversionRate))
                          (to_number env exchangeRate))
                       base))
                 base)
      in if isNaN fiatFixed0 then Fin 0 else fiatFixed0)"

text \<open>\<open>None\<close> is the \<open>undefined\<close> the function returns.\<close>

definition balanceToFiat :: "js_env \<Rightarrow> jsval \<Rightarrow> jsval \<Rightarrow> jsval \<Rightarrow> string \<Rightarrow> string option" where
  "balanceToFiat env balance conversionRate exchangeRate currencyCode =
     (if balance = JUndefined \<or> balance = JNull \<or> exchangeRate = JUndefined \<or> exchangeRate = JNull
      then None
      else
        let fiatFixed = balanceToFiatNumber env balance conversionRate exchangeRate 5
        in Some (js_toString env fiatFixed @ '' '' @ toUpperCase env currencyCode))"

section \<open>isDecimal\<close>

text \<open>\<open>/^(\d+\.?\d*|\.\d+)$/.test(value)\<close>; \<open>\d\<close> is \<open>[0-9]\<close>.\<close>

definition decimal_re :: rexp where
  "decimal_re =
     Alt (Seq (Plus (Atom is_digit)) (Seq (Opt (Chr (CHR ''.''))) (Star (Atom is_digit))))
         (Seq (Chr (CHR ''.'')) (Plus (Atom is_digit)))"

definition isDecimal :: "string \<Rightarrow> bool" where
  "isDecimal v = matches decimal_re v"

section \<open>The settings reducer\<close>

text \<open>
  A state object is a map from its keys to their values; a key that is absent reads
  \<open>undefined\<close> (\<open>None\<close>). An action carries its type, the payload of a rehydration
  (absent, or an object whose \<open>settings\<close> is absent or an object) and the two fields
  the setters read. \<open>REHYDRATE\<close> is the action type of redux-persist; the two
  defaults of \<open>AppConstants\<close> are parameters. A state that is \<open>undefined\<close>
  (\<open>None\<close>) is replaced by the initial state.
\<close>

type_synonym 'v obj = "string \<rightharpoonup> 'v"

record 'v payload =
  settings :: "'v obj option"

record 'v action =
  atype :: string
  payload :: "'v payload option"
  searchEngine :: 'v
  lockTime :: 'v

definition REHYDRATE :: string where
  "REHYDRATE = ''persist/REHYDRATE''"

definition initialState :: "'v \<Rightarrow> 'v \<Rightarrow> 'v obj" where
  "initialState DEFAULT_SEARCH_ENGINE DEFAULT_LOCK_TIMEOUT =
     [''searchEngine'' \<mapsto> DEFAULT_SEARCH_ENGINE, ''lockTime'' \<mapsto> DEFAULT_LOCK_TIMEOUT]"

definition settingsReducer :: "'v \<Rightarrow> 'v \<Rightarrow> 'v obj option \<Rightarrow> 'v action \<Rightarrow> 'v obj" where
  "settingsReducer DEFAULT_SEARCH_ENGINE DEFAULT_LOCK_TIMEOUT state0 action =
     (let state = (case state0 of
                     None \<Rightarrow> initialState DEFAULT_SEARCH_ENGINE DEFAULT_LOCK_TIMEOUT
                   | Some s \<Rightarrow> s)
      in if atype action = REHYDRATE then
           (case payload action of
              None \<Rightarrow> state
            | Some p \<Rightarrow> (case settings p of None \<Rightarrow> state | Some st \<Rightarrow> state ++ st))
         else if atype action = ''SET_SEARCH_ENGINE'' then
           state(''searchEngine'' \<mapsto> searchEngine action)
         else if atype action = ''SET_LOCK_TIME'' then
           state(''lockTime'' \<mapsto> lockTime action)
         else state)"

section \<open>Notions the statements use\<close>

text \<open>
  The words of the specification: trailing zeros stripped, a remainder padded with zeros
  on the left to a given number of digits, the fraction of an amount at a decimal count,
  and the text after the first decimal point of a numeral.
\<close>

definition strip_trailing_zeros :: "string \<Rightarrow> string" where
  "strip_trailing_zeros s = rev (dropWhile (\<lambda>c. c = CHR ''0'') (rev s))"

definition zero_pad_left :: "nat \<Rightarrow> string \<Rightarrow> string" where
  "zero_pad_left d s = replicate (d - length s) (CHR ''0'') @ s"

definition spec_fraction :: "int \<Rightarrow> nat \<Rightarrow> string" where
  "spec_fraction a d = strip_trailing_zeros (zero_pad_left d (nat_to_dec (nat (\<bar>a\<bar> mod 10 ^ d))))"

definition fractional_part :: "string \<Rightarrow> string" where
  "fractional_part v = tl (dropWhile (\<lambda>c. c \<noteq> CHR ''.'') v)"

text \<open>
  The normalized value of an input of \<open>toTokenMinimalUnit\<close>: the string without its
  leading minus sign. The rounding result of the fiat conversions:
  \<open>parseFloat(Math.round(x * base) / base)\<close> with \<open>base = Math.pow(10, decimalsToShow)\<close>.
\<close>

definition unsigned_value :: "string \<Rightarrow> string" where
  "unsigned_value v = (if take 1 v = ''-'' then drop 1 v else v)"

definition rounding_result :: "js_env \<Rightarrow> jsnum \<Rightarrow> nat \<Rightarrow> jsnum" where
  "rounding_result env x decimalsToShow =
     parseFloat
       (js_div env (Math_round (js_mul env x (Math_pow10 env decimalsToShow)))
          (Math_pow10 env decimalsToShow))"

section \<open>What the regular expressions match\<close>

lemma matches_Zero [simp]: "matches Zero w = False"
  by (induction w) simp_all

lemma matches_One [simp]: "matches One w = (w = [])"
  by (cases w) simp_all

lemma matches_Atom: "matches (Atom P) w = (\<exists>c. w = [c] \<and> P c)"
  by (cases w) auto

lemma matches_Alt: "matches (Alt r s) w = (matches r w \<or> matches s w)"
proof (induction w arbitrary: r s)
  case Nil
  show ?case by simp
next
  case (Cons c w)
  have "matches (alt (deriv c r) (deriv c s)) w = (matches (deriv c r) w \<or> matches (deriv c s) w)"
    by (cases "deriv c r"; cases "deriv c s") (simp_all add: alt_def Cons.IH)
  then show ?case by simp
qed

lemma matches_alt: "matches (alt r s) w = (matches r w \<or> matches s w)"
  by (cases r; cases s) (simp_all add: alt_def matches_Alt)

lemma matches_Seq:
  "matches (Seq r s) w = (\<exists>u v. w = u @ v \<and> matches r u \<and> matches s v)"
proof (induction w arbitrary: r s)
  case Nil
  show ?case by simp
next
  case (Cons c w)
  have sq: "matches (seq r' s) w = (\<exists>u v. w = u @ v \<and> matches r' u \<and> matches s v)" for r'
    by (cases r') (simp_all add: seq_def Cons.IH)
  have split: "(\<exists>u v. c # w = u @ v \<and> matches r u \<and> matches s v) =
      ((nullable r \<and> matches s (c # w)) \<or> (\<exists>u v. w = u @ v \<and> matches r (c # u) \<and> matches s v))"
    (is "?L = ?R")
  proof
    assume ?L
    then obtain u v where uv: "c # w = u @ v" "matches r u" "matches s v" by blast
    show ?R
    proof (cases u)
      case Nil
      with uv show ?thesis by simp
    next
      case (Cons a u')
      with uv have "w = u' @ v" "matches r (c # u')" by simp_all
      with uv(3) show ?thesis by blast
    qed
  next
    assume ?R
    then show ?L
    proof
      assume "nullable r \<and> matches s (c # w)"
      then have "c # w = [] @ (c # w) \<and> matches r [] \<and> matches s (c # w)" by simp
      then show ?L by blast
    next
      assume "\<exists>u v. w = u @ v \<and> matches r (c # u) \<and> matches s v"
      then obtain u v where "w = u @ v" "matches r (c # u)" "matches s v" by blast
      then have "c # w = (c # u) @ v \<and> matches r (c # u) \<and> matches s v" by simp
      then show ?L by blast
    qed
  qed
  show ?case
    unfolding split by (auto simp: sq matches_alt)
qed

lemma matches_Star_Atom: "matches (Star (Atom P)) w = list_all P w"
  by (induction w) (simp_all add: seq_def)

lemma matches_Plus_Atom: "matches (Plus (Atom P)) w = (w \<noteq> [] \<and> list_all P w)"
  by (cases w) (auto simp: Plus_def seq_def matches_Star_Atom)

lemma matches_Opt: "matches (Opt r) w = (matches r w \<or> w = [])"
  by (simp add: Opt_def matches_Alt)

lemma matches_Chr: "matches (Chr c) w = (w = [c])"
  by (auto simp: Chr_def matches_Atom)

lemmas matches_simps =
  matches_Atom matches_Alt matches_Seq matches_Star_Atom matches_Plus_Atom matches_Opt matches_Chr

lemma matches_fraction_re:
  "matches fraction_re p = (\<exists>u c. p = u @ [c] \<and> list_all is_digit u \<and> is_nonzero_digit c)"
  by (auto simp: fraction_re_def matches_simps)

lemma numberToString_accepts:
  assumes "v \<noteq> []" "list_all (\<lambda>c. is_digit c \<or> c = CHR ''.'') v"
  shows "matches number_re v"
proof -
  have "v = [] @ v \<and> ([] = ''-'' \<or> [] = ([]::string)) \<and> v \<noteq> []
      \<and> list_all (\<lambda>c. is_digit c \<or> c = CHR ''.'') v"
    using assms by simp
  then show ?thesis
    unfolding number_re_def
    by (simp only: matches_Seq matches_Opt matches_Chr matches_Plus_Atom) blast
qed

lemma isDecimal_chars:
  "isDecimal v \<Longrightarrow> list_all (\<lambda>c. is_digit c \<or> c = CHR ''.'') v"
  by (auto simp: isDecimal_def decimal_re_def list_all_iff matches_simps)

section \<open>Arithmetic on the value zero\<close>

lemma js_mul_zero_or_NaN_left:
  "x = Fin 0 \<or> x = NaN \<Longrightarrow> js_mul env x y = Fin 0 \<or> js_mul env x y = NaN"
  by (cases y) auto

lemma js_mul_zero_right: "js_mul env x (Fin 0) = Fin 0 \<or> js_mul env x (Fin 0) = NaN"
  by (cases x) auto

lemma js_mul_NaN_right [simp]: "js_mul env x NaN = NaN"
  by (cases x) auto

lemma Math_round_zero_or_NaN:
  "x = Fin 0 \<or> x = NaN \<Longrightarrow> Math_round x = Fin 0 \<or> Math_round x = NaN"
  by (auto simp: floor_eq_iff)

lemma js_div_zero_or_NaN:
  "x = Fin 0 \<or> x = NaN \<Longrightarrow>
   js_div env x (Fin (10 ^ 5)) = Fin 0 \<or> js_div env x (Fin (10 ^ 5)) = NaN"
  by auto

lemma balanceToFiatNumber_no_rate:
  assumes "conversionRate = JNull \<or> conversionRate = JUndefined"
  shows "balanceToFiatNumber env balance conversionRate exchangeRate 5 = Fin 0"
proof -
  let ?p1 = "js_mul env (to_number env balance) (to_number env conversionRate)"
  let ?p2 = "js_mul env ?p1 (to_number env exchangeRate)"
  let ?p3 = "js_mul env ?p2 (Fin (10 ^ 5))"
  have 1: "?p1 = Fin 0 \<or> ?p1 = NaN"
    using assms js_mul_zero_right [of env "to_number env balance"] by auto
  then have 2: "?p2 = Fin 0 \<or> ?p2 = NaN" by (rule js_mul_zero_or_NaN_left)
  then have 3: "?p3 = Fin 0 \<or> ?p3 = NaN" by (rule js_mul_zero_or_NaN_left)
  then have 4: "Math_round ?p3 = Fin 0 \<or> Math_round ?p3 = NaN" by (rule Math_round_zero_or_NaN)
  then have 5: "js_div env (Math_round ?p3) (Fin (10 ^ 5)) = Fin 0
      \<or> js_div env (Math_round ?p3) (Fin (10 ^ 5)) = NaN"
    by (rule js_div_zero_or_NaN)
  then show ?thesis
    by (auto simp: balanceToFiatNumber_def Math_pow10_def parseFloat_def isNaN_def Let_def)
qed

lemma toUpperCase_usd: "toUpperCase env ''usd'' = ''USD''"
  by (simp add: toUpperCase_def upper_char_def is_ascii_def)

section \<open>Decimal numerals\<close>

lemma lt10_cases: "n < 10 \<Longrightarrow> n \<in> {0, 1, 2, 3, 4, 5, 6, 7, 8, 9 :: nat}"
  by auto

lemma is_digit_digit_char: "n < 10 \<Longrightarrow> is_digit (digit_char n)"
  using lt10_cases [of n] by (auto simp: digit_char_def is_digit_def)

lemma BN_digit_digit_char: "n < 10 \<Longrightarrow> BN_digit (digit_char n) = int n"
  using lt10_cases [of n] by (auto simp: digit_char_def BN_digit_def)

lemma digit_char_eq_zero: "n < 10 \<Longrightarrow> (digit_char n = CHR ''0'') = (n = 0)"
  using lt10_cases [of n] by (auto simp: digit_char_def)

lemma is_nonzero_digit_iff: "is_digit c \<Longrightarrow> is_nonzero_digit c = (c \<noteq> CHR ''0'')"
  by (auto simp: is_digit_def is_nonzero_digit_def)

lemma is_digit_not_minus: "is_digit c \<Longrightarrow> c \<noteq> CHR ''-''"
  by (auto simp: is_digit_def)

lemma is_digit_not_dot: "is_digit c \<Longrightarrow> c \<noteq> CHR ''.''"
  by (auto simp: is_digit_def)

lemma is_digit_zero: "is_digit (CHR ''0'')"
  by (simp add: is_digit_def)

lemma BN_digit_zero: "BN_digit (CHR ''0'') = 0"
  by (simp add: BN_digit_def)

lemma nat_to_dec_digits: "list_all is_digit (nat_to_dec n)"
  by (induction n rule: nat_to_dec.induct) (subst nat_to_dec.simps, simp add: is_digit_digit_char)

lemma nat_to_dec_nonempty: "nat_to_dec n \<noteq> []"
  by (subst nat_to_dec.simps) simp

lemma foldl_parse_acc:
  "foldl (\<lambda>r ch. r * 10 + BN_digit ch) a t = a * 10 ^ length t + parseBase t"
proof (induction t rule: rev_induct)
  case Nil
  show ?case by (simp add: parseBase_def)
next
  case (snoc c t)
  have "parseBase (t @ [c]) = parseBase t * 10 + BN_digit c"
    by (simp add: parseBase_def)
  with snoc show ?case by (simp add: algebra_simps)
qed

lemma parseBase_append: "parseBase (s @ t) = parseBase s * 10 ^ length t + parseBase t"
  using foldl_parse_acc [of "parseBase s" t] by (simp add: parseBase_def)

lemma parseBase_zeros: "parseBase (replicate k (CHR ''0'')) = 0"
  by (induction k) (simp_all add: parseBase_def BN_digit_zero)

lemma parseBase_nat_to_dec: "parseBase (nat_to_dec n) = int n"
proof (induction n rule: nat_to_dec.induct)
  case (1 n)
  show ?case
  proof (cases "n < 10")
    case True
    then show ?thesis
      by (subst nat_to_dec.simps) (simp add: parseBase_def BN_digit_digit_char)
  next
    case False
    with 1 have "parseBase (nat_to_dec (n div 10)) = int (n div 10)" by simp
    with False show ?thesis
      by (subst nat_to_dec.simps) (simp add: parseBase_append parseBase_def BN_digit_digit_char zdiv_int zmod_int)
  qed
qed

lemma length_nat_to_dec: "0 < d \<Longrightarrow> n < 10 ^ d \<Longrightarrow> length (nat_to_dec n) \<le> d"
proof (induction n arbitrary: d rule: nat_to_dec.induct)
  case (1 n)
  show ?case
  proof (cases "n < 10")
    case True
    with 1(2) show ?thesis by (subst nat_to_dec.simps) simp
  next
    case False
    obtain d' where d: "d = Suc d'" using 1(2) by (cases d) auto
    have "d' \<noteq> 0" using False 1(3) d by (cases d') auto
    moreover have "n div 10 < 10 ^ d'" using 1(3) d by (simp add: less_mult_imp_div_less mult.commute)
    ultimately have "length (nat_to_dec (n div 10)) \<le> d'" using 1(1) [OF False, of d'] by simp
    with False d show ?thesis by (subst nat_to_dec.simps) simp
  qed
qed

lemma nat_to_dec_all_zero: "list_all (\<lambda>c. c = CHR ''0'') (nat_to_dec n) = (n = 0)"
proof (induction n rule: nat_to_dec.induct)
  case (1 n)
  show ?case
  proof (cases "n < 10")
    case True
    then show ?thesis by (subst nat_to_dec.simps) (simp add: digit_char_eq_zero)
  next
    case False
    with 1 have "list_all (\<lambda>c. c = CHR ''0'') (nat_to_dec (n div 10)) = (n div 10 = 0)" by simp
    moreover have "n div 10 \<noteq> 0" using False by arith
    ultimately show ?thesis using False by (subst nat_to_dec.simps) (simp add: digit_char_eq_zero)
  qed
qed

lemma padStart0_eq: "padStart0 d s = replicate (d - length s) (CHR ''0'') @ s"
proof (induction d s rule: padStart0.induct)
  case (1 d s)
  show ?case
  proof (cases "length s < d")
    case True
    then have "d - length s = Suc (d - Suc (length s))" by arith
    with 1 True show ?thesis
      by (subst padStart0.simps) (simp add: replicate_app_Cons_same)
  next
    case False
    then show ?thesis by (subst padStart0.simps) simp
  qed
qed

lemma padEnd0_eq: "padEnd0 d s = s @ replicate (d - length s) (CHR ''0'')"
proof (induction d s rule: padEnd0.induct)
  case (1 d s)
  show ?case
  proof (cases "length s < d")
    case True
    then have "d - length s = Suc (d - Suc (length s))" by arith
    with 1 True show ?thesis
      by (subst padEnd0.simps) simp
  next
    case False
    then show ?thesis by (subst padEnd0.simps) simp
  qed
qed

lemma toBN_pow10: "d \<le> 20 \<Longrightarrow> toBN (pow10_toString pw d) = 10 ^ d"
proof -
  assume "d \<le> 20"
  have "parseBase (''1'' @ replicate d (CHR ''0'')) = 10 ^ d"
    unfolding parseBase_append by (simp add: parseBase_zeros) (simp add: parseBase_def BN_digit_def)
  with \<open>d \<le> 20\<close> show ?thesis
    by (simp add: toBN_def BN_of_string_def pow10_toString_def)
qed

section \<open>Trailing zeros and the fraction pattern\<close>

lemma strip_snoc:
  "strip_trailing_zeros (s @ [c]) = (if c = CHR ''0'' then strip_trailing_zeros s else s @ [c])"
  by (simp add: strip_trailing_zeros_def)

lemma strip_eq_Nil: "(strip_trailing_zeros s = []) = list_all (\<lambda>c. c = CHR ''0'') s"
  by (simp add: strip_trailing_zeros_def dropWhile_eq_Nil_conv list_all_iff)

lemma strip_not_zero: "strip_trailing_zeros s \<noteq> ''0''"
proof
  assume "strip_trailing_zeros s = ''0''"
  then have "dropWhile (\<lambda>c. c = CHR ''0'') (rev s) = ''0''"
    by (simp add: strip_trailing_zeros_def rev_swap [symmetric])
  then have "hd (dropWhile (\<lambda>c. c = CHR ''0'') (rev s)) = CHR ''0''" by simp
  moreover have "dropWhile (\<lambda>c. c = CHR ''0'') (rev s) \<noteq> []"
    using \<open>dropWhile (\<lambda>c. c = CHR ''0'') (rev s) = ''0''\<close> by simp
  ultimately show False using hd_dropWhile [of "\<lambda>c. c = CHR ''0''" "rev s"] by simp
qed

lemma length_strip_le: "length (strip_trailing_zeros s) \<le> length s"
  by (simp add: strip_trailing_zeros_def le_trans [OF length_dropWhile_le])

lemma strip_decompose:
  "s = strip_trailing_zeros s @ replicate (length s - length (strip_trailing_zeros s)) (CHR ''0'')"
proof (induction s rule: rev_induct)
  case Nil
  show ?case by (simp add: strip_trailing_zeros_def)
next
  case (snoc c s)
  let ?t = "strip_trailing_zeros s"
  let ?k = "length s - length (strip_trailing_zeros s)"
  show ?case
  proof (cases "c = CHR ''0''")
    case True
    have 1: "strip_trailing_zeros (s @ [c]) = ?t" using True by (simp add: strip_snoc)
    have 2: "length (s @ [c]) - length ?t = Suc ?k" using length_strip_le [of s] by simp
    have "?t @ replicate (Suc ?k) (CHR ''0'') = (?t @ replicate ?k (CHR ''0'')) @ ''0''"
      by (simp add: replicate_append_same)
    also have "\<dots> = s @ [c]" using snoc [symmetric] True by simp
    finally show ?thesis unfolding 1 2 by simp
  next
    case False
    then show ?thesis by (simp add: strip_snoc)
  qed
qed

lemma strip_digits: "list_all is_digit s \<Longrightarrow> list_all is_digit (strip_trailing_zeros s)"
  by (auto simp: strip_trailing_zeros_def list_all_iff dest: set_dropWhileD)

lemma greedy_prefix_append:
  "n \<le> length s \<Longrightarrow> greedy_prefix P (s @ t) n = greedy_prefix P s n"
  by (induction n) simp_all

lemma greedy_fraction_digits:
  "list_all is_digit s \<Longrightarrow>
   greedy_prefix (matches fraction_re) s (length s)
     = (if strip_trailing_zeros s = [] then None else Some (strip_trailing_zeros s))"
proof (induction s rule: rev_induct)
  case Nil
  show ?case by (simp add: strip_trailing_zeros_def matches_fraction_re)
next
  case (snoc c s)
  then have ds: "list_all is_digit s" and dc: "is_digit c" by simp_all
  have m: "matches fraction_re (s @ [c]) = (c \<noteq> CHR ''0'')"
    using ds dc by (simp add: matches_fraction_re is_nonzero_digit_iff)
  show ?case
    using snoc.IH [OF ds] m
    by (simp add: greedy_prefix_append strip_snoc)
qed

lemma match_fraction_digits:
  assumes "s \<noteq> []" "list_all is_digit s"
  shows "match_fraction s
     = Some (if strip_trailing_zeros s = [] then ''0'' else strip_trailing_zeros s)"
proof (cases "strip_trailing_zeros s = []")
  case True
  then have "list_all (\<lambda>c. c = CHR ''0'') s" by (simp add: strip_eq_Nil)
  with assms(1) have "take 1 s = ''0''" by (cases s) simp_all
  with True assms(2) show ?thesis
    by (simp add: match_fraction_def greedy_fraction_digits)
next
  case False
  with assms(2) show ?thesis
    by (simp add: match_fraction_def greedy_fraction_digits)
qed

section \<open>What fromTokenMinimalUnit pw returns\<close>

lemma zeros_digits: "list_all is_digit (replicate k (CHR ''0''))"
  by (induction k) (simp_all add: is_digit_zero)

lemma zeros_all_zero: "list_all (\<lambda>c. c = CHR ''0'') (replicate k (CHR ''0''))"
  by (induction k) simp_all

lemma padded_digits: "list_all is_digit (replicate k (CHR ''0'') @ nat_to_dec n)"
  by (simp add: nat_to_dec_digits zeros_digits)

lemma padded_all_zero:
  "list_all (\<lambda>c. c = CHR ''0'') (replicate k (CHR ''0'') @ nat_to_dec n) = (n = 0)"
  by (simp add: nat_to_dec_all_zero zeros_all_zero)

lemma zero_pad_left_padStart0: "zero_pad_left d s = padStart0 d s"
  by (simp add: zero_pad_left_def padStart0_eq)

lemma BN_toString_nonneg: "0 \<le> n \<Longrightarrow> BN_toString n = nat_to_dec (nat n)"
  by (simp add: BN_toString_def)

lemma fromTokenMinimalUnit_base:
  assumes "0 \<le> a" and "0 < toBN (pow10_toString pw d)"
  shows "fromTokenMinimalUnit pw a d =
     Inr (BN_toString (a div toBN (pow10_toString pw d)) @
          (if a mod toBN (pow10_toString pw d) = 0 then []
           else CHR ''.'' # strip_trailing_zeros
                  (zero_pad_left d (nat_to_dec (nat (a mod toBN (pow10_toString pw d)))))))"
proof -
  let ?b = "toBN (pow10_toString pw d)"
  let ?p = "zero_pad_left d (nat_to_dec (nat (a mod ?b)))"
  have rem: "0 \<le> a mod ?b" using assms(2) by simp
  have pad: "padStart0 d (BN_toString (a mod ?b)) = ?p"
    using rem by (simp add: padStart0_eq zero_pad_left_def BN_toString_nonneg)
  have ne: "?p \<noteq> []" by (simp add: zero_pad_left_def nat_to_dec_nonempty)
  have dg: "list_all is_digit ?p" unfolding zero_pad_left_def by (rule padded_digits)
  have z: "(strip_trailing_zeros ?p = []) = (a mod ?b = 0)"
    using rem unfolding strip_eq_Nil zero_pad_left_def padded_all_zero by simp
  have m: "match_fraction ?p = Some (if a mod ?b = 0 then ''0'' else strip_trailing_zeros ?p)"
    using match_fraction_digits [OF ne dg] z by simp
  show ?thesis
    using assms m z
    by (simp add: fromTokenMinimalUnit_def pad strip_not_zero Let_def)
qed

lemma fromTokenMinimalUnit_nonneg:
  assumes "0 \<le> a" and "d \<le> 20"
  shows "fromTokenMinimalUnit pw a d =
     Inr (BN_toString (a div 10 ^ d) @
          (if a mod 10 ^ d = 0 then [] else CHR ''.'' # spec_fraction a d))"
  using fromTokenMinimalUnit_base [where a = a and d = d and pw = pw] assms
  by (simp add: toBN_pow10 spec_fraction_def)

lemma toBN_pow10_21: "toBN (pow10_toString pw 21) = 23521"
  by (simp add: toBN_def BN_of_string_def pow10_toString_def parseBase_def BN_digit_def)

section \<open>What toTokenMinimalUnit pw does with an unsigned numeral\<close>

lemma split_dot_nonempty: "split_dot v \<noteq> []"
  by (induction v) (auto split: list.splits)

lemma split_dot_nodot: "CHR ''.'' \<notin> set w \<Longrightarrow> split_dot w = [w]"
  by (induction w) auto

lemma split_dot_append_dot:
  "CHR ''.'' \<notin> set w \<Longrightarrow> split_dot (w @ CHR ''.'' # t) = w # split_dot t"
  by (induction w) auto

lemma length_split_dot: "length (split_dot v) = Suc (count_list v (CHR ''.''))"
  using split_dot_nonempty by (induction v) (auto split: list.splits)

lemma count_list_0: "(count_list v c = 0) = (c \<notin> set v)"
  by (induction v) auto

lemma dot_decompose:
  assumes "CHR ''.'' \<in> set v"
  shows "v = takeWhile (\<lambda>c. c \<noteq> CHR ''.'') v @ CHR ''.'' # fractional_part v"
proof -
  let ?d = "dropWhile (\<lambda>c. c \<noteq> CHR ''.'') v"
  have ne: "?d \<noteq> []" using assms by (simp add: dropWhile_eq_Nil_conv)
  then have "hd ?d = CHR ''.''" using hd_dropWhile [of "\<lambda>c. c \<noteq> CHR ''.''" v] by simp
  with ne have "?d = CHR ''.'' # fractional_part v"
    by (cases ?d) (simp_all add: fractional_part_def)
  then show ?thesis using takeWhile_dropWhile_id [of "\<lambda>c. c \<noteq> CHR ''.''" v] by simp
qed

lemma takeWhile_nodot: "CHR ''.'' \<notin> set (takeWhile (\<lambda>c. c \<noteq> CHR ''.'') v)"
  using set_takeWhileD [of "CHR ''.''" "\<lambda>c. c \<noteq> CHR ''.''" v] by blast

lemma fractional_part_nodot: "CHR ''.'' \<notin> set v \<Longrightarrow> fractional_part v = []"
  by (induction v) (auto simp: fractional_part_def)

lemma takeWhile_nodot_id: "CHR ''.'' \<notin> set v \<Longrightarrow> takeWhile (\<lambda>c. c \<noteq> CHR ''.'') v = v"
  by (induction v) auto

lemma comps_one_dot:
  assumes "count_list v (CHR ''.'') \<le> 1"
  shows "nth_opt (split_dot v) 0 = Some (takeWhile (\<lambda>c. c \<noteq> CHR ''.'') v)"
    and "nth_opt (split_dot v) 1 = (if CHR ''.'' \<in> set v then Some (fractional_part v) else None)"
proof -
  let ?w = "takeWhile (\<lambda>c. c \<noteq> CHR ''.'') v"
  show "nth_opt (split_dot v) 0 = Some ?w"
  proof (cases "CHR ''.'' \<in> set v")
    case True
    have "split_dot (?w @ CHR ''.'' # fractional_part v) = ?w # split_dot (fractional_part v)"
      by (rule split_dot_append_dot [OF takeWhile_nodot])
    then have "split_dot v = ?w # split_dot (fractional_part v)"
      using dot_decompose [OF True] by simp
    then show ?thesis by (simp add: nth_opt_def)
  next
    case False
    then show ?thesis by (simp add: takeWhile_nodot_id split_dot_nodot nth_opt_def)
  qed
  show "nth_opt (split_dot v) 1 = (if CHR ''.'' \<in> set v then Some (fractional_part v) else None)"
  proof (cases "CHR ''.'' \<in> set v")
    case True
    have sp: "split_dot (?w @ CHR ''.'' # fractional_part v) = ?w # split_dot (fractional_part v)"
      by (rule split_dot_append_dot [OF takeWhile_nodot])
    have "count_list (?w @ CHR ''.'' # fractional_part v) (CHR ''.'') \<le> 1"
      using assms dot_decompose [OF True] by simp
    then have "count_list (fractional_part v) (CHR ''.'') = 0" by simp
    then have "split_dot (fractional_part v) = [fractional_part v]"
      by (simp add: count_list_0 split_dot_nodot)
    with sp have "split_dot v = [?w, fractional_part v]"
      using dot_decompose [OF True] by simp
    with True show ?thesis by (simp add: nth_opt_def)
  next
    case False
    then show ?thesis by (simp add: split_dot_nodot nth_opt_def)
  qed
qed

lemma take1_nat_to_dec: "take 1 (nat_to_dec n) \<noteq> ''-''"
  using nat_to_dec_digits [of n] nat_to_dec_nonempty [of n]
  by (cases "nat_to_dec n") (auto dest: is_digit_not_minus)

lemma BN_of_string_toString: "BN_of_string (BN_toString t) = t"
  using take1_nat_to_dec [of "nat t"]
  by (simp add: BN_of_string_def BN_toString_def parseBase_nat_to_dec)

lemma take1_unsigned:
  "list_all (\<lambda>c. is_digit c \<or> c = CHR ''.'') v \<Longrightarrow> take 1 v \<noteq> ''-''"
  by (cases v) (auto dest: is_digit_not_minus)

lemma toTokenMinimalUnit_unsigned:
  assumes "v \<noteq> []" and "list_all (\<lambda>c. is_digit c \<or> c = CHR ''.'') v"
  shows "toTokenMinimalUnit pw v d =
     (if v = ''.'' then Inl InvalidNumberError
      else if 2 < length (split_dot v) then Inl TooManyDecimalPointsError
      else if d < length (or_zero (nth_opt (split_dot v) 1)) then Inl TooManyDecimalPlacesError
      else Inr (BN_of_string (or_zero (nth_opt (split_dot v) 0)) * toBN (pow10_toString pw d)
                + BN_of_string (padEnd0 d (or_zero (nth_opt (split_dot v) 1)))))"
  using numberToString_accepts [OF assms] take1_unsigned [OF assms(2)]
  by (simp add: toTokenMinimalUnit_def numberToString_def Let_def BN_of_string_toString)

lemma BN_of_string_digits: "list_all is_digit s \<Longrightarrow> BN_of_string s = parseBase s"
  by (cases s) (auto simp: BN_of_string_def dest: is_digit_not_minus)

lemma parseBase_padded: "parseBase (zero_pad_left d (nat_to_dec n)) = int n"
  by (simp add: zero_pad_left_def parseBase_append parseBase_zeros parseBase_nat_to_dec)

lemma length_padded:
  "0 < d \<Longrightarrow> n < 10 ^ d \<Longrightarrow> length (zero_pad_left d (nat_to_dec n)) = d"
  using length_nat_to_dec [of d n] by (simp add: zero_pad_left_def)

lemma digits_nodot: "list_all is_digit s \<Longrightarrow> CHR ''.'' \<notin> set s"
  by (auto simp: list_all_iff dest: is_digit_not_dot)

lemma digits_unsigned:
  "list_all is_digit s \<Longrightarrow> list_all (\<lambda>c. is_digit c \<or> c = CHR ''.'') s"
  by (simp add: list_all_iff)

section \<open>Further facts about the conversions\<close>

lemma fromTokenMinimalUnit_negative: "a < 0 \<Longrightarrow> fromTokenMinimalUnit pw a d = Inl RangeError"
  by (simp add: fromTokenMinimalUnit_def BN_mul_boolean_def Let_def)

lemma or_zero_nonempty: "0 < length (or_zero x)"
  by (simp add: or_zero_def split: option.splits)

lemma toTokenMinimalUnit_zero_decimals: "toTokenMinimalUnit pw v 0 \<noteq> Inr n"
  using or_zero_nonempty
  by (simp add: toTokenMinimalUnit_def Let_def split: sum.splits)

lemma roundTrip_zero_never: "roundTrip pw a 0 \<noteq> Inr n"
  by (simp add: roundTrip_def toTokenMinimalUnit_zero_decimals split: sum.splits)

lemma fromWei_total: "\<exists>s. fromWei w = Inr s"
proof -
  let ?w = "if w < 0 then w * (- 1) else w"
  let ?r = "?w mod 10 ^ 18"
  let ?p = "zero_pad_left 18 (nat_to_dec (nat ?r))"
  have rem: "0 \<le> ?r" by simp
  have pad: "padStart0 18 (BN_toString ?r) = ?p"
    using rem by (simp only: padStart0_eq zero_pad_left_def BN_toString_nonneg)
  have ne: "?p \<noteq> []" by (simp add: zero_pad_left_def nat_to_dec_nonempty)
  have dg: "list_all is_digit ?p" unfolding zero_pad_left_def by (rule padded_digits)
  have "\<exists>f. match_fraction ?p = Some f"
    using match_fraction_digits [OF ne dg] by blast
  then obtain f where "match_fraction (padStart0 18 (BN_toString ?r)) = Some f"
    using pad by auto
  then show ?thesis
    by (simp add: fromWei_def Let_def)
qed

lemmas re_eval = decimal_re_def Plus_def Opt_def Chr_def is_digit_def alt_def seq_def

section \<open>toTokenMinimalUnit on any string\<close>

lemma toTokenMinimalUnit_rejected:
  "\<not> matches number_re v \<Longrightarrow> toTokenMinimalUnit pw v d = Inl NumberToStringError"
  by (simp add: toTokenMinimalUnit_def numberToString_def)

lemma toTokenMinimalUnit_accepted:
  assumes "matches number_re v"
  shows "toTokenMinimalUnit pw v d =
     (if unsigned_value v = ''.'' then Inl InvalidNumberError
      else if 2 < length (split_dot (unsigned_value v)) then Inl TooManyDecimalPointsError
      else if d < length (or_zero (nth_opt (split_dot (unsigned_value v)) 1))
        then Inl TooManyDecimalPlacesError
      else if take 1 v = ''-'' then Inl RangeError
      else Inr (BN_of_string (or_zero (nth_opt (split_dot (unsigned_value v)) 0))
                  * toBN (pow10_toString pw d)
                + BN_of_string (padEnd0 d (or_zero (nth_opt (split_dot (unsigned_value v)) 1)))))"
  using assms
  by (simp add: toTokenMinimalUnit_def numberToString_def unsigned_value_def Let_def
      BN_mul_boolean_def BN_of_string_toString)

lemma lone_point_accepted: "unsigned_value v = ''.'' \<Longrightarrow> matches number_re v"
proof -
  assume u: "unsigned_value v = ''.''"
  have 1: "matches number_re ''.''"
    by (simp add: number_re_def Opt_def Chr_def Plus_def alt_def seq_def is_digit_def)
  have 2: "matches number_re ''-.''"
    by (simp add: number_re_def Opt_def Chr_def Plus_def alt_def seq_def is_digit_def)
  show ?thesis
  proof (cases "take 1 v = ''-''")
    case True
    then have "drop 1 v = ''.''" using u by (simp add: unsigned_value_def)
    then have "v = ''-.''" using True append_take_drop_id [of 1 v] by simp
    then show ?thesis using 2 by simp
  next
    case False
    then show ?thesis using u 1 by (simp add: unsigned_value_def)
  qed
qed

lemma fraction_read:
  assumes "count_list u (CHR ''.'') \<le> 1"
  shows "d < length (fractional_part u) \<Longrightarrow> d < length (or_zero (nth_opt (split_dot u) 1))"
    and "1 \<le> d \<Longrightarrow> d < length (or_zero (nth_opt (split_dot u) 1)) \<Longrightarrow> d < length (fractional_part u)"
    and "\<not> d < length (or_zero (nth_opt (split_dot u) 1)) \<Longrightarrow> length (fractional_part u) \<le> d"
  using comps_one_dot(2) [OF assms]
  by (auto simp: or_zero_def fractional_part_nodot split: if_splits)

section \<open>Operands that are not numbers\<close>

lemma rounding_result_NaN [simp]: "rounding_result env NaN n = NaN"
  by (simp add: rounding_result_def parseFloat_def)

section \<open>The claims\<close>

subsection \<open>The conversions between amounts and decimal strings\<close>

text \<open>
  Claim C1 says that \<open>toTokenMinimalUnit (fromTokenMinimalUnit a d) d\<close> is \<open>a\<close> for
  every amount \<open>a \<ge> 0\<close> and every decimal count \<open>d \<ge> 0\<close>. At \<open>d = 0\<close> the code
  does not return: the amount 5 prints as \<open>"5"\<close>, the missing fraction is read as
  \<open>"0"\<close>, whose one digit is more than zero decimals, and \<open>toTokenMinimalUnit\<close>
  raises the error for too many decimal places. With zero decimals the round trip
  returns for no amount at all.
\<close>

theorem roundTrip_zero_decimals:
  "\<forall>pw. fromTokenMinimalUnit pw 5 0 = Inr ''5''
      \<and> toTokenMinimalUnit pw ''5'' 0 = Inl TooManyDecimalPlacesError
      \<and> roundTrip pw 5 0 = Inl TooManyDecimalPlacesError
      \<and> (\<forall>a n. roundTrip pw a 0 \<noteq> Inr n)"
proof
  fix pw
  have 1: "fromTokenMinimalUnit pw 5 0 = Inr ''5''"
    using fromTokenMinimalUnit_nonneg [where pw = pw and a = 5 and d = 0]
    by (simp add: BN_toString_def nat_to_dec.simps digit_char_def)
  have 2: "toTokenMinimalUnit pw ''5'' 0 = Inl TooManyDecimalPlacesError"
    using toTokenMinimalUnit_unsigned [where pw = pw and v = "''5''" and d = 0]
    by (simp add: is_digit_def nth_opt_def or_zero_def)
  have 3: "roundTrip pw 5 0 = Inl TooManyDecimalPlacesError"
    using 1 2 by (simp add: roundTrip_def)
  show "fromTokenMinimalUnit pw 5 0 = Inr ''5''
      \<and> toTokenMinimalUnit pw ''5'' 0 = Inl TooManyDecimalPlacesError
      \<and> roundTrip pw 5 0 = Inl TooManyDecimalPlacesError
      \<and> (\<forall>a n. roundTrip pw a 0 \<noteq> Inr n)"
    by (intro conjI allI 1 2 3 roundTrip_zero_never)
qed

text \<open>
  Claim C2 says that \<open>fromTokenMinimalUnit (- a) d\<close> is \<open>"-"\<close> followed by
  \<open>fromTokenMinimalUnit a d\<close>. On a negative amount the code multiplies the amount
  by the boolean \<open>negative\<close> and raises instead: \<open>- 15\<close> at one decimal raises,
  where 15 gives \<open>"1.5"\<close>.
\<close>

theorem fromTokenMinimalUnit_negative_raises:
  "\<forall>pw. fromTokenMinimalUnit pw (- 15) 1 = Inl RangeError
      \<and> fromTokenMinimalUnit pw 15 1 = Inr ''1.5''"
proof
  fix pw
  have "spec_fraction 15 1 = ''5''"
    by (simp add: spec_fraction_def zero_pad_left_padStart0 padStart0.simps nat_to_dec.simps
        digit_char_def strip_trailing_zeros_def)
  then have "fromTokenMinimalUnit pw 15 1 = Inr ''1.5''"
    using fromTokenMinimalUnit_nonneg [where pw = pw and a = 15 and d = 1]
    by (simp add: BN_toString_def nat_to_dec.simps digit_char_def)
  then show "fromTokenMinimalUnit pw (- 15) 1 = Inl RangeError
      \<and> fromTokenMinimalUnit pw 15 1 = Inr ''1.5''"
    by (simp add: fromTokenMinimalUnit_negative)
qed

text \<open>
  Claim C3, as stated, fails: a string that \<open>numberToString\<close> rejects raises that
  function's error, a negative numeral raises in the multiplication by the boolean, and
  with zero decimals a numeral with no fraction raises the error for too many decimal
  places.
\<close>

theorem toTokenMinimalUnit_other_failures:
  "\<forall>pw. toTokenMinimalUnit pw ''abc'' 18 = Inl NumberToStringError
      \<and> toTokenMinimalUnit pw ''-1'' 1 = Inl RangeError
      \<and> toTokenMinimalUnit pw ''5'' 0 = Inl TooManyDecimalPlacesError"
proof
  fix pw
  have 1: "\<not> matches number_re ''abc''"
    by (simp add: number_re_def Opt_def Chr_def Plus_def alt_def seq_def is_digit_def)
  have 2: "matches number_re ''-1''"
    by (simp add: number_re_def Opt_def Chr_def Plus_def alt_def seq_def is_digit_def)
  have 3: "toTokenMinimalUnit pw ''5'' 0 = Inl TooManyDecimalPlacesError"
    using toTokenMinimalUnit_unsigned [where pw = pw and v = "''5''" and d = 0]
    by (simp add: is_digit_def nth_opt_def or_zero_def)
  have 4: "toTokenMinimalUnit pw ''-1'' 1 = Inl RangeError"
    using toTokenMinimalUnit_accepted [OF 2, where pw = pw and d = 1]
    by (simp add: unsigned_value_def nth_opt_def or_zero_def)
  show "toTokenMinimalUnit pw ''abc'' 18 = Inl NumberToStringError
      \<and> toTokenMinimalUnit pw ''-1'' 1 = Inl RangeError
      \<and> toTokenMinimalUnit pw ''5'' 0 = Inl TooManyDecimalPlacesError"
    using toTokenMinimalUnit_rejected [OF 1] 3 4 by simp
qed

text \<open>
  Claim C3, amended. For every input string and every decimal count, with the value
  the string without its leading minus sign: \<open>toTokenMinimalUnit\<close> raises the error of
  \<open>numberToString\<close> exactly when the string does not match \<open>/^-?[0-9.]+$/\<close>; it raises
  the invalid-number error exactly when the value is the lone decimal point; it raises
  the error for too many decimal points exactly when the string matches and the value
  holds more than one point; it raises the error for too many decimal places whenever
  the string matches, the value is not the lone point, holds at most one point and has
  more digits after its point than the decimal count, and, with a decimal count of at
  least one, only then; it returns an integer only if the string matches, the value is
  not the lone point, holds at most one point and has at most as many digits after its
  point as the decimal count, and it does return then when the string has no minus
  sign and the decimal count is at least one.
\<close>

theorem toTokenMinimalUnit_errors:
  "(toTokenMinimalUnit pw v d = Inl NumberToStringError \<longleftrightarrow> \<not> matches number_re v) \<and>
   (toTokenMinimalUnit pw v d = Inl InvalidNumberError \<longleftrightarrow> unsigned_value v = ''.'') \<and>
   (toTokenMinimalUnit pw v d = Inl TooManyDecimalPointsError \<longleftrightarrow>
      matches number_re v \<and> 1 < count_list (unsigned_value v) (CHR ''.'')) \<and>
   (matches number_re v \<and> unsigned_value v \<noteq> ''.''
      \<and> count_list (unsigned_value v) (CHR ''.'') \<le> 1
      \<and> d < length (fractional_part (unsigned_value v))
      \<longrightarrow> toTokenMinimalUnit pw v d = Inl TooManyDecimalPlacesError) \<and>
   (1 \<le> d \<and> toTokenMinimalUnit pw v d = Inl TooManyDecimalPlacesError
      \<longrightarrow> matches number_re v \<and> unsigned_value v \<noteq> ''.''
          \<and> count_list (unsigned_value v) (CHR ''.'') \<le> 1
          \<and> d < length (fractional_part (unsigned_value v))) \<and>
   ((\<exists>n. toTokenMinimalUnit pw v d = Inr n)
      \<longrightarrow> matches number_re v \<and> unsigned_value v \<noteq> ''.''
          \<and> count_list (unsigned_value v) (CHR ''.'') \<le> 1
          \<and> length (fractional_part (unsigned_value v)) \<le> d) \<and>
   (1 \<le> d \<and> take 1 v \<noteq> ''-'' \<and> matches number_re v \<and> unsigned_value v \<noteq> ''.''
      \<and> count_list (unsigned_value v) (CHR ''.'') \<le> 1
      \<and> length (fractional_part (unsigned_value v)) \<le> d
      \<longrightarrow> (\<exists>n. toTokenMinimalUnit pw v d = Inr n))"
proof (cases "matches number_re v")
  case False
  then have "unsigned_value v \<noteq> ''.''" using lone_point_accepted by blast
  then show ?thesis using False toTokenMinimalUnit_rejected [OF False, of pw d] by simp
next
  case m: True
  let ?u = "unsigned_value v"
  note G = toTokenMinimalUnit_accepted [OF m, of pw d]
  show ?thesis
  proof (cases "?u = ''.''")
    case True
    then show ?thesis using m G by simp
  next
    case np: False
    show ?thesis
    proof (cases "1 < count_list ?u (CHR ''.'')")
      case True
      then show ?thesis using m np G by (simp add: length_split_dot)
    next
      case False
      then have le: "count_list ?u (CHR ''.'') \<le> 1" by simp
      show ?thesis
      proof (cases "d < length (or_zero (nth_opt (split_dot ?u) 1))")
        case pl: True
        then have r: "toTokenMinimalUnit pw v d = Inl TooManyDecimalPlacesError"
          using G np False by (simp add: length_split_dot)
        have "1 \<le> d \<Longrightarrow> d < length (fractional_part ?u)"
          using fraction_read(2) [OF le] pl by blast
        then show ?thesis using m np le False r by auto
      next
        case npl: False
        have fl: "length (fractional_part ?u) \<le> d" by (rule fraction_read(3) [OF le npl])
        have nd: "\<not> d < length (fractional_part ?u)" using fl by simp
        have r: "toTokenMinimalUnit pw v d =
            (if take 1 v = ''-'' then Inl RangeError
             else Inr (BN_of_string (or_zero (nth_opt (split_dot ?u) 0)) * toBN (pow10_toString pw d)
                       + BN_of_string (padEnd0 d (or_zero (nth_opt (split_dot ?u) 1)))))"
          using G np False npl by (simp add: length_split_dot)
        show ?thesis using m np le False fl nd r by auto
      qed
    qed
  qed
qed

theorem toTokenMinimalUnit_errors_witness:
  "\<forall>pw. toTokenMinimalUnit pw ''1.23'' 1 = Inl TooManyDecimalPlacesError
      \<and> toTokenMinimalUnit pw ''.'' 18 = Inl InvalidNumberError
      \<and> toTokenMinimalUnit pw ''-.'' 18 = Inl InvalidNumberError
      \<and> toTokenMinimalUnit pw ''.'' 0 = Inl InvalidNumberError
      \<and> toTokenMinimalUnit pw ''1.2.3'' 18 = Inl TooManyDecimalPointsError
      \<and> toTokenMinimalUnit pw ''-1.2.3'' 0 = Inl TooManyDecimalPointsError
      \<and> toTokenMinimalUnit pw ''abc'' 18 = Inl NumberToStringError
      \<and> (\<exists>n. toTokenMinimalUnit pw ''1.5'' 18 = Inr n)"
proof
  fix pw
  have m: "matches number_re ''1.23''" "matches number_re ''1.2.3''" "matches number_re ''-1.2.3''"
    "matches number_re ''1.5''" "\<not> matches number_re ''abc''"
    by (simp_all add: number_re_def Opt_def Chr_def Plus_def alt_def seq_def is_digit_def)
  show "toTokenMinimalUnit pw ''1.23'' 1 = Inl TooManyDecimalPlacesError
      \<and> toTokenMinimalUnit pw ''.'' 18 = Inl InvalidNumberError
      \<and> toTokenMinimalUnit pw ''-.'' 18 = Inl InvalidNumberError
      \<and> toTokenMinimalUnit pw ''.'' 0 = Inl InvalidNumberError
      \<and> toTokenMinimalUnit pw ''1.2.3'' 18 = Inl TooManyDecimalPointsError
      \<and> toTokenMinimalUnit pw ''-1.2.3'' 0 = Inl TooManyDecimalPointsError
      \<and> toTokenMinimalUnit pw ''abc'' 18 = Inl NumberToStringError
      \<and> (\<exists>n. toTokenMinimalUnit pw ''1.5'' 18 = Inr n)"
    using m
      toTokenMinimalUnit_errors [of pw "''1.23''" 1] toTokenMinimalUnit_errors [of pw "''.''" 18]
      toTokenMinimalUnit_errors [of pw "''-.''" 18] toTokenMinimalUnit_errors [of pw "''.''" 0]
      toTokenMinimalUnit_errors [of pw "''1.2.3''" 18]
      toTokenMinimalUnit_errors [of pw "''-1.2.3''" 0]
      toTokenMinimalUnit_errors [of pw "''abc''" 18] toTokenMinimalUnit_errors [of pw "''1.5''" 18]
    by (simp add: unsigned_value_def fractional_part_def)
qed

text \<open>
  Claim C8 says that, for every amount \<open>a \<ge> 0\<close> and every decimal count, the fraction
  \<open>fromTokenMinimalUnit\<close> emits is the remainder \<open>a mod 10^d\<close> padded to \<open>d\<close> digits
  and stripped of its trailing zeros. At 21 decimals the code does not compute the
  base \<open>10^21\<close> it means to: \<open>Math.pow(10, 21).toString()\<close> is \<open>"1e+21"\<close>, which
  the parser of bn.js reads as 23521 (later versions of bn.js reject the string), so
  the amount 23521 comes out as \<open>"1"\<close> and not as \<open>"0.000000000000000023521"\<close>.
\<close>

theorem fromTokenMinimalUnit_exponent_base:
  "\<forall>pw. fromTokenMinimalUnit pw 23521 21 = Inr ''1''
      \<and> BN_toString (23521 div 10 ^ 21) @ CHR ''.'' # spec_fraction 23521 21
          = ''0.000000000000000023521''"
proof
  fix pw
  have "fromTokenMinimalUnit pw 23521 21 = Inr ''1''"
    using fromTokenMinimalUnit_base [where pw = pw and a = 23521 and d = 21]
    by (simp add: toBN_pow10_21 BN_toString_def nat_to_dec.simps digit_char_def)
  moreover have "spec_fraction 23521 21 = ''000000000000000023521''"
    by (simp add: spec_fraction_def zero_pad_left_padStart0 padStart0.simps nat_to_dec.simps
        digit_char_def strip_trailing_zeros_def)
  ultimately show "fromTokenMinimalUnit pw 23521 21 = Inr ''1''
      \<and> BN_toString (23521 div 10 ^ 21) @ CHR ''.'' # spec_fraction 23521 21
          = ''0.000000000000000023521''"
    by (simp add: BN_toString_def nat_to_dec.simps digit_char_def)
qed

subsection \<open>The fiat conversions\<close>

text \<open>
  Claim C4. Whatever the conversion rate and the currency code, \<open>weiToFiat\<close> returns
  \<open>"0.00 "\<close> followed by the currency code when \<open>wei\<close> is \<open>undefined\<close>,
  \<open>null\<close> or not a BN instance; the result does not depend on the rate or on how
  numbers round and print, so no arithmetic enters it.
\<close>

theorem weiToFiat_sentinel:
  "wei = JUndefined \<or> wei = JNull \<or> \<not> isBN wei \<Longrightarrow>
   weiToFiat env wei conversionRate currencyCode = Inr (''0.00 '' @ currencyCode)"
  by (cases wei) (auto simp: weiToFiat_def)

theorem weiToFiat_sentinel_witness:
  "\<forall>env. weiToFiat env JUndefined (JNum (Fin 300)) ''USD'' = Inr ''0.00 USD''"
  using weiToFiat_sentinel [of JUndefined _ "JNum (Fin 300)" "''USD''"] by simp

text \<open>
  Claim C5. Whatever the conversion rate and the currency code, \<open>balanceToFiat\<close>
  returns \<open>undefined\<close> when the balance or the exchange rate is \<open>null\<close> or
  \<open>undefined\<close>, and so never a formatted zero.
\<close>

theorem balanceToFiat_absent:
  "balance = JUndefined \<or> balance = JNull \<or> exchangeRate = JUndefined \<or> exchangeRate = JNull \<Longrightarrow>
   balanceToFiat env balance conversionRate exchangeRate currencyCode = None"
  by (auto simp: balanceToFiat_def)

theorem balanceToFiat_absent_witness:
  "\<forall>env. balanceToFiat env JUndefined (JNum (Fin 300)) (JNum (Fin (1 / 100))) ''usd'' = None
     \<and> balanceToFiat env JUndefined (JNum (Fin 300)) (JNum (Fin (1 / 100))) ''usd''
         \<noteq> Some ''0.00 USD''"
  using balanceToFiat_absent [of JUndefined "JNum (Fin (1 / 100))" _ "JNum (Fin 300)" "''usd''"]
  by simp

text \<open>
  Claim C6. In \<open>weiToFiatNumber\<close> and in \<open>balanceToFiatNumber\<close> a rounding result
  that is \<open>NaN\<close> is replaced by zero and any other rounding result is returned as it
  is, whatever the arguments and however numbers round: so \<open>weiToFiatNumber\<close> returns
  a number and \<open>balanceToFiatNumber\<close> is a number, neither of them \<open>NaN\<close>, and an
  operand that is not a number (\<open>undefined\<close>, a string that does not read as a
  number) gives zero.
\<close>

theorem fiat_numbers_never_NaN:
  "(\<exists>eth. fromWei wei = Inr eth \<and>
      (rounding_result env (js_mul env (to_number env (JStr eth)) (to_number env conversionRate))
           decimalsToShow = NaN
         \<longrightarrow> weiToFiatNumber env wei conversionRate decimalsToShow = Inr (Fin 0)) \<and>
      (rounding_result env (js_mul env (to_number env (JStr eth)) (to_number env conversionRate))
           decimalsToShow \<noteq> NaN
         \<longrightarrow> weiToFiatNumber env wei conversionRate decimalsToShow =
             Inr (rounding_result env
                    (js_mul env (to_number env (JStr eth)) (to_number env conversionRate))
                    decimalsToShow)))
   \<and> (rounding_result env
          (js_mul env (js_mul env (to_number env balance) (to_number env conversionRate))
             (to_number env exchangeRate)) decimalsToShow = NaN
        \<longrightarrow> balanceToFiatNumber env balance conversionRate exchangeRate decimalsToShow = Fin 0)
   \<and> (rounding_result env
          (js_mul env (js_mul env (to_number env balance) (to_number env conversionRate))
             (to_number env exchangeRate)) decimalsToShow \<noteq> NaN
        \<longrightarrow> balanceToFiatNumber env balance conversionRate exchangeRate decimalsToShow =
            rounding_result env
              (js_mul env (js_mul env (to_number env balance) (to_number env conversionRate))
                 (to_number env exchangeRate)) decimalsToShow)
   \<and> (\<exists>v. weiToFiatNumber env wei conversionRate decimalsToShow = Inr v \<and> v \<noteq> NaN)
   \<and> balanceToFiatNumber env balance conversionRate exchangeRate decimalsToShow \<noteq> NaN
   \<and> (to_number env conversionRate = NaN
        \<longrightarrow> weiToFiatNumber env wei conversionRate decimalsToShow = Inr (Fin 0))
   \<and> (to_number env balance = NaN \<or> to_number env conversionRate = NaN
          \<or> to_number env exchangeRate = NaN
        \<longrightarrow> balanceToFiatNumber env balance conversionRate exchangeRate decimalsToShow = Fin 0)
   \<and> weiToFiatNumber env wei JUndefined decimalsToShow = Inr (Fin 0)
   \<and> balanceToFiatNumber env balance JUndefined exchangeRate decimalsToShow = Fin 0"
proof -
  obtain eth where s: "fromWei wei = Inr eth" using fromWei_total by blast
  let ?rw = "rounding_result env
      (js_mul env (to_number env (JStr eth)) (to_number env conversionRate)) decimalsToShow"
  let ?rb = "rounding_result env
      (js_mul env (js_mul env (to_number env balance) (to_number env conversionRate))
         (to_number env exchangeRate)) decimalsToShow"
  have w: "weiToFiatNumber env wei conversionRate decimalsToShow
      = Inr (if ?rw = NaN then Fin 0 else ?rw)"
    using s by (simp add: weiToFiatNumber_def rounding_result_def isNaN_def Let_def)
  have b: "balanceToFiatNumber env balance conversionRate exchangeRate decimalsToShow
      = (if ?rb = NaN then Fin 0 else ?rb)"
    by (simp add: balanceToFiatNumber_def rounding_result_def isNaN_def Let_def)
  have 1: "\<exists>eth. fromWei wei = Inr eth \<and>
      (rounding_result env (js_mul env (to_number env (JStr eth)) (to_number env conversionRate))
           decimalsToShow = NaN
         \<longrightarrow> weiToFiatNumber env wei conversionRate decimalsToShow = Inr (Fin 0)) \<and>
      (rounding_result env (js_mul env (to_number env (JStr eth)) (to_number env conversionRate))
           decimalsToShow \<noteq> NaN
         \<longrightarrow> weiToFiatNumber env wei conversionRate decimalsToShow =
             Inr (rounding_result env
                    (js_mul env (to_number env (JStr eth)) (to_number env conversionRate))
                    decimalsToShow))"
    using s w by (intro exI [of _ eth]) simp
  have 2: "?rb = NaN
      \<longrightarrow> balanceToFiatNumber env balance conversionRate exchangeRate decimalsToShow = Fin 0"
    using b by simp
  have 3: "?rb \<noteq> NaN
      \<longrightarrow> balanceToFiatNumber env balance conversionRate exchangeRate decimalsToShow = ?rb"
    using b by simp
  have 4: "\<exists>v. weiToFiatNumber env wei conversionRate decimalsToShow = Inr v \<and> v \<noteq> NaN"
    using w by simp
  have 5: "balanceToFiatNumber env balance conversionRate exchangeRate decimalsToShow \<noteq> NaN"
    using b by simp
  have 6: "to_number env conversionRate = NaN
      \<longrightarrow> weiToFiatNumber env wei conversionRate decimalsToShow = Inr (Fin 0)"
    using w by (simp add: rounding_result_NaN)
  have 7: "to_number env balance = NaN \<or> to_number env conversionRate = NaN
        \<or> to_number env exchangeRate = NaN
      \<longrightarrow> balanceToFiatNumber env balance conversionRate exchangeRate decimalsToShow = Fin 0"
    using b by (auto simp: rounding_result_NaN)
  have 8: "weiToFiatNumber env wei JUndefined decimalsToShow = Inr (Fin 0)"
    using s by (simp add: weiToFiatNumber_def isNaN_def parseFloat_def Let_def)
  have 9: "balanceToFiatNumber env balance JUndefined exchangeRate decimalsToShow = Fin 0"
    by (simp add: balanceToFiatNumber_def isNaN_def parseFloat_def Let_def)
  show ?thesis by (intro conjI 1 2 3 4 5 6 7 8 9)
qed

theorem fiat_numbers_never_NaN_witness:
  "weiToFiatNumber
      \<lparr>round_double = Fin, string_to_number = (\<lambda>s. NaN), number_to_string = (\<lambda>r. []),
        upper_case_other = (\<lambda>s. s)\<rparr> 1 (JStr ''abc'') 5 = Inr (Fin 0)
   \<and> balanceToFiatNumber
      \<lparr>round_double = Fin, string_to_number = (\<lambda>s. NaN), number_to_string = (\<lambda>r. []),
        upper_case_other = (\<lambda>s. s)\<rparr> (JNum (Inf True)) (JNum (Fin 0)) (JNum (Fin 1)) 5 = Fin 0
   \<and> balanceToFiatNumber
      \<lparr>round_double = Fin, string_to_number = (\<lambda>s. NaN), number_to_string = (\<lambda>r. []),
        upper_case_other = (\<lambda>s. s)\<rparr> (JNum (Fin 2)) (JNum (Fin 3)) (JNum (Fin 1)) 5 = Fin 6"
proof -
  let ?env = "\<lparr>round_double = Fin, string_to_number = (\<lambda>s. NaN), number_to_string = (\<lambda>r. []),
        upper_case_other = (\<lambda>s. s)\<rparr>"
  have r1: "rounding_result ?env (js_mul ?env (js_mul ?env (Inf True) (Fin 0)) (Fin 1)) 5 = NaN"
    by (simp add: rounding_result_def parseFloat_def)
  have r2: "rounding_result ?env (js_mul ?env (js_mul ?env (Fin 2) (Fin 3)) (Fin 1)) 5 = Fin 6"
    by (simp add: rounding_result_def parseFloat_def Math_pow10_def floor_eq_iff)
  show ?thesis
    using r1 r2
      fiat_numbers_never_NaN [of 1 ?env "JStr ''abc''" 5 "JNum (Inf True)" "JNum (Fin 1)"]
      fiat_numbers_never_NaN [of 1 ?env "JNum (Fin 0)" 5 "JNum (Inf True)" "JNum (Fin 1)"]
      fiat_numbers_never_NaN [of 1 ?env "JNum (Fin 3)" 5 "JNum (Fin 2)" "JNum (Fin 1)"]
    by simp
qed

text \<open>
  Claim C9. With a balance and an exchange rate that are neither \<open>null\<close> nor
  \<open>undefined\<close>, a conversion rate that is \<open>null\<close> or \<open>undefined\<close> does not give
  \<open>undefined\<close>: the product is zero or \<open>NaN\<close>, the result is the number zero, and
  \<open>balanceToFiat\<close> returns \<open>"0 "\<close> followed by the upper-cased currency code.
\<close>

theorem balanceToFiat_no_conversionRate:
  "balance \<noteq> JUndefined \<Longrightarrow> balance \<noteq> JNull \<Longrightarrow>
   exchangeRate \<noteq> JUndefined \<Longrightarrow> exchangeRate \<noteq> JNull \<Longrightarrow>
   conversionRate = JNull \<or> conversionRate = JUndefined \<Longrightarrow>
   balanceToFiat env balance conversionRate exchangeRate currencyCode
     = Some (''0 '' @ toUpperCase env currencyCode)"
  by (simp add: balanceToFiat_def balanceToFiatNumber_no_rate)

theorem balanceToFiat_no_conversionRate_witness:
  "\<forall>env. balanceToFiat env (JNum (Fin 5)) JUndefined (JNum (Fin (1 / 100))) ''usd'' = Some ''0 USD''
      \<and> balanceToFiat env (JNum (Fin 5)) JNull (JNum (Fin (1 / 100))) ''usd'' = Some ''0 USD''"
  using balanceToFiat_no_conversionRate [of "JNum (Fin 5)" "JNum (Fin (1 / 100))" JUndefined _ "''usd''"]
    balanceToFiat_no_conversionRate [of "JNum (Fin 5)" "JNum (Fin (1 / 100))" JNull _ "''usd''"]
  by (simp add: toUpperCase_usd)

subsection \<open>The decimal-string predicate\<close>

text \<open>
  Claim C7, as stated, fails on \<open>"1."\<close>: the first alternative of the pattern makes
  both the point and the digits after it optional.
\<close>

theorem isDecimal_trailing_point: "isDecimal ''1.''"
  by (simp add: isDecimal_def re_eval)

text \<open>
  Claim C7, amended. \<open>isDecimal\<close> holds of \<open>"0.5"\<close>, \<open>".5"\<close> and \<open>"1."\<close> and
  not of \<open>"--1"\<close>; whatever it accepts is made of digits and decimal points, so it
  holds no sign and no exponent.
\<close>

theorem isDecimal_accepts:
  "isDecimal ''0.5'' \<and> \<not> isDecimal ''--1'' \<and> isDecimal ''.5'' \<and> isDecimal ''1.''
   \<and> (\<forall>v. isDecimal v \<longrightarrow>
          list_all (\<lambda>c. is_digit c \<or> c = CHR ''.'') v
          \<and> CHR ''-'' \<notin> set v \<and> CHR ''+'' \<notin> set v \<and> CHR ''e'' \<notin> set v \<and> CHR ''E'' \<notin> set v)"
proof -
  have 1: "isDecimal ''0.5''" by (simp add: isDecimal_def re_eval)
  have 2: "\<not> isDecimal ''--1''" by (simp add: isDecimal_def re_eval)
  have 3: "isDecimal ''.5''" by (simp add: isDecimal_def re_eval)
  have 4: "isDecimal ''1.''" by (simp add: isDecimal_def re_eval)
  have n: "\<not> (is_digit (CHR ''-'') \<or> CHR ''-'' = CHR ''.'')"
    "\<not> (is_digit (CHR ''+'') \<or> CHR ''+'' = CHR ''.'')"
    "\<not> (is_digit (CHR ''e'') \<or> CHR ''e'' = CHR ''.'')"
    "\<not> (is_digit (CHR ''E'') \<or> CHR ''E'' = CHR ''.'')"
    by (simp_all add: is_digit_def)
  have 5: "list_all (\<lambda>c. is_digit c \<or> c = CHR ''.'') v
      \<and> CHR ''-'' \<notin> set v \<and> CHR ''+'' \<notin> set v \<and> CHR ''e'' \<notin> set v \<and> CHR ''E'' \<notin> set v"
    if "isDecimal v" for v
  proof -
    have a: "\<forall>c\<in>set v. is_digit c \<or> c = CHR ''.''"
      using isDecimal_chars [OF that] by (simp add: list_all_iff)
    then show ?thesis using n by (auto simp: list_all_iff)
  qed
  show ?thesis by (intro conjI 1 2 3 4 allI impI 5)
qed

theorem isDecimal_accepts_witness:
  "isDecimal ''0.5'' \<and> list_all (\<lambda>c. is_digit c \<or> c = CHR ''.'') ''0.5'' \<and> CHR ''-'' \<notin> set ''0.5''"
  using isDecimal_accepts [THEN conjunct1]
    isDecimal_accepts [THEN conjunct2, THEN conjunct2, THEN conjunct2, THEN conjunct2, THEN spec,
      of "''0.5''"]
  by simp

subsection \<open>The settings reducer\<close>

text \<open>
  Claim C10. On any state, \<open>SET_SEARCH_ENGINE\<close> leaves \<open>lockTime\<close> (and every key
  but \<open>searchEngine\<close>) as it was and stores the action's search engine;
  \<open>SET_LOCK_TIME\<close> leaves \<open>searchEngine\<close> (and every key but \<open>lockTime\<close>) as it
  was and stores the action's lock time; an action of any type other than
  \<open>REHYDRATE\<close> and these two returns the state unchanged.
\<close>

theorem settingsReducer_frame:
  "(atype a = ''SET_SEARCH_ENGINE'' \<longrightarrow>
      settingsReducer e t (Some s) a ''lockTime'' = s ''lockTime'' \<and>
      settingsReducer e t (Some s) a ''searchEngine'' = Some (searchEngine a) \<and>
      (\<forall>k. k \<noteq> ''searchEngine'' \<longrightarrow> settingsReducer e t (Some s) a k = s k)) \<and>
   (atype a = ''SET_LOCK_TIME'' \<longrightarrow>
      settingsReducer e t (Some s) a ''searchEngine'' = s ''searchEngine'' \<and>
      settingsReducer e t (Some s) a ''lockTime'' = Some (lockTime a) \<and>
      (\<forall>k. k \<noteq> ''lockTime'' \<longrightarrow> settingsReducer e t (Some s) a k = s k)) \<and>
   (atype a \<noteq> REHYDRATE \<and> atype a \<noteq> ''SET_SEARCH_ENGINE'' \<and> atype a \<noteq> ''SET_LOCK_TIME'' \<longrightarrow>
      settingsReducer e t (Some s) a = s)"
  by (simp add: settingsReducer_def REHYDRATE_def)

theorem settingsReducer_frame_witness:
  "settingsReducer ''Google'' ''30000''
       (Some [''searchEngine'' \<mapsto> ''Google'', ''lockTime'' \<mapsto> ''30000''])
       \<lparr>atype = ''SET_SEARCH_ENGINE'', payload = None, searchEngine = ''DuckDuckGo'', lockTime = ''0''\<rparr>
       ''lockTime'' = Some ''30000''
   \<and> settingsReducer ''Google'' ''30000''
       (Some [''searchEngine'' \<mapsto> ''Google'', ''lockTime'' \<mapsto> ''30000''])
       \<lparr>atype = ''SET_LOCK_TIME'', payload = None, searchEngine = ''DuckDuckGo'', lockTime = ''0''\<rparr>
       ''searchEngine'' = Some ''Google''
   \<and> settingsReducer ''Google'' ''30000''
       (Some [''searchEngine'' \<mapsto> ''Google'', ''lockTime'' \<mapsto> ''30000''])
       \<lparr>atype = ''CLEAR'', payload = None, searchEngine = ''DuckDuckGo'', lockTime = ''0''\<rparr>
       = [''searchEngine'' \<mapsto> ''Google'', ''lockTime'' \<mapsto> ''30000'']"
  using settingsReducer_frame
      [of "\<lparr>atype = ''SET_SEARCH_ENGINE'', payload = None, searchEngine = ''DuckDuckGo'', lockTime = ''0''\<rparr>"
          "''Google''" "''30000''" "[''searchEngine'' \<mapsto> ''Google'', ''lockTime'' \<mapsto> ''30000'']"]
    settingsReducer_frame
      [of "\<lparr>atype = ''SET_LOCK_TIME'', payload = None, searchEngine = ''DuckDuckGo'', lockTime = ''0''\<rparr>"
          "''Google''" "''30000''" "[''searchEngine'' \<mapsto> ''Google'', ''lockTime'' \<mapsto> ''30000'']"]
    settingsReducer_frame
      [of "\<lparr>atype = ''CLEAR'', payload = None, searchEngine = ''DuckDuckGo'', lockTime = ''0''\<rparr>"
          "''Google''" "''30000''" "[''searchEngine'' \<mapsto> ''Google'', ''lockTime'' \<mapsto> ''30000'']"]
  by (simp add: REHYDRATE_def)

section \<open>Further properties of the conversions\<close>

lemma parseBase_Nil: "parseBase [] = 0"
  by (simp add: parseBase_def)

lemma unsigned_parts:
  assumes "list_all (\<lambda>c. is_digit c \<or> c = CHR ''.'') v" and "count_list v (CHR ''.'') \<le> 1"
  shows "list_all is_digit (takeWhile (\<lambda>c. c \<noteq> CHR ''.'') v)"
    and "list_all is_digit (fractional_part v)"
proof -
  let ?w = "takeWhile (\<lambda>c. c \<noteq> CHR ''.'') v"
  have "\<forall>c\<in>set ?w. (is_digit c \<or> c = CHR ''.'') \<and> c \<noteq> CHR ''.''"
    using assms(1) by (auto simp: list_all_iff dest: set_takeWhileD)
  then show "list_all is_digit ?w" by (auto simp: list_all_iff)
  show "list_all is_digit (fractional_part v)"
  proof (cases "CHR ''.'' \<in> set v")
    case True
    have "count_list (?w @ CHR ''.'' # fractional_part v) (CHR ''.'') \<le> 1"
      using assms(2) dot_decompose [OF True] by simp
    then have nd: "CHR ''.'' \<notin> set (fractional_part v)" by (simp add: count_list_0)
    have "set (fractional_part v) \<subseteq> set v"
      using dot_decompose [OF True] by (metis Un_upper2 set_append set_subset_Cons subset_trans)
    then show ?thesis using assms(1) nd by (auto simp: list_all_iff)
  next
    case False
    then show ?thesis by (simp add: fractional_part_nodot)
  qed
qed

text \<open>
  The round trip, where it holds: for an amount \<open>a \<ge> 0\<close> and a decimal count from 1
  to 20, converting the amount to its decimal string and back gives the amount.
\<close>

theorem roundTrip_exact:
  assumes "0 \<le> a" and "1 \<le> d" and "d \<le> 20"
  shows "roundTrip pw a d = Inr a"
proof -
  let ?B = "(10::int) ^ d"
  let ?W = "BN_toString (a div ?B)"
  let ?r = "a mod ?B"
  let ?P = "zero_pad_left d (nat_to_dec (nat ?r))"
  let ?F = "spec_fraction a d"
  have q: "0 \<le> a div ?B" using assms(1) by (simp add: pos_imp_zdiv_nonneg_iff)
  have r: "0 \<le> ?r" "?r < ?B" by simp_all
  have W: "?W = nat_to_dec (nat (a div ?B))" using q by (simp add: BN_toString_nonneg)
  have Wd: "list_all is_digit ?W" unfolding W by (rule nat_to_dec_digits)
  have Wne: "?W \<noteq> []" unfolding W by (rule nat_to_dec_nonempty)
  have Wv: "BN_of_string ?W = a div ?B"
    using q by (simp add: BN_of_string_digits [OF Wd]) (simp add: W parseBase_nat_to_dec)
  have F: "?F = strip_trailing_zeros ?P"
    using assms(1) by (simp add: spec_fraction_def)
  have fr: "fromTokenMinimalUnit pw a d = Inr (?W @ (if ?r = 0 then [] else CHR ''.'' # ?F))"
    by (rule fromTokenMinimalUnit_nonneg [OF assms(1,3)])
  have base: "toBN (pow10_toString pw d) = ?B" by (rule toBN_pow10 [OF assms(3)])
  show ?thesis
  proof (cases "?r = 0")
    case True
    have sp: "split_dot ?W = [?W]" by (rule split_dot_nodot [OF digits_nodot [OF Wd]])
    have np: "?W \<noteq> ''.''" using digits_nodot [OF Wd] by auto
    have "padEnd0 d ''0'' = replicate (Suc (d - 1)) (CHR ''0'')"
      by (simp add: padEnd0_eq)
    then have "padEnd0 d ''0'' = replicate d (CHR ''0'')" using assms(2) by simp
    then have z: "BN_of_string (padEnd0 d ''0'') = 0"
      by (simp add: BN_of_string_digits [OF zeros_digits] parseBase_zeros)
    have "toTokenMinimalUnit pw ?W d = Inr (a div ?B * ?B)"
      using toTokenMinimalUnit_unsigned [OF Wne digits_unsigned [OF Wd], of pw d] np assms(2) Wne
      by (simp add: sp nth_opt_def or_zero_def base Wv z)
    moreover have "a div ?B * ?B = a" using True by (simp add: mod_eq_0_iff_dvd)
    ultimately show ?thesis using fr True by (simp add: roundTrip_def)
  next
    case False
    have rlt: "nat ?r < 10 ^ d"
      using r by (simp add: nat_less_iff)
    have lenP: "length ?P = d"
      using assms(2) rlt by (intro length_padded) simp_all
    have Pd: "list_all is_digit ?P" unfolding zero_pad_left_def by (rule padded_digits)
    have Fd: "list_all is_digit ?F" unfolding F by (rule strip_digits [OF Pd])
    have "0 < ?r" using False r(1) by linarith
    then have nz: "nat ?r \<noteq> 0" by simp
    have Fne: "?F \<noteq> []"
      using nz unfolding F strip_eq_Nil zero_pad_left_def padded_all_zero .
    have Flen: "length ?F \<le> d" unfolding F using length_strip_le [of ?P] lenP by simp
    let ?s = "?W @ CHR ''.'' # ?F"
    have sne: "?s \<noteq> []" by simp
    have su: "list_all (\<lambda>c. is_digit c \<or> c = CHR ''.'') ?s"
      using digits_unsigned [OF Wd] digits_unsigned [OF Fd] by simp
    have np: "?s \<noteq> ''.''" using Wne by (cases ?W) simp_all
    have sp: "split_dot ?s = [?W, ?F]"
      using split_dot_append_dot [OF digits_nodot [OF Wd], of ?F]
        split_dot_nodot [OF digits_nodot [OF Fd]] by simp
    have "padEnd0 d ?F = ?P"
      using strip_decompose [of ?P] lenP by (simp add: padEnd0_eq F)
    then have fv: "BN_of_string (padEnd0 d ?F) = ?r"
      using r(1) by (simp add: BN_of_string_digits [OF Pd] parseBase_padded)
    have "toTokenMinimalUnit pw ?s d = Inr (a div ?B * ?B + ?r)"
      using toTokenMinimalUnit_unsigned [OF sne su, of pw d] np Flen Fne Wne
      by (simp add: sp nth_opt_def or_zero_def base Wv fv)
    moreover have "a div ?B * ?B + ?r = a" by (rule div_mult_mod_eq)
    ultimately show ?thesis using fr False by (simp add: roundTrip_def)
  qed
qed

theorem roundTrip_exact_witness: "\<forall>pw. roundTrip pw 1050 3 = Inr 1050"
  using roundTrip_exact [where a = 1050 and d = 3] by simp

text \<open>
  The value \<open>toTokenMinimalUnit\<close> returns: for a numeral of digits with at most one
  decimal point, other than the lone point, whose fraction has at most \<open>d\<close> digits,
  with \<open>d\<close> from 1 to 20, the result is the whole part times \<open>10^d\<close> plus the
  fraction scaled to \<open>d\<close> digits; \<open>parseBase\<close> of a string of digits is the number
  it denotes. So \<open>"1.5"\<close> at 18 decimals is 1500000000000000000.
\<close>

theorem toTokenMinimalUnit_value:
  assumes "v \<noteq> []" and "list_all (\<lambda>c. is_digit c \<or> c = CHR ''.'') v"
    and "v \<noteq> ''.''" and "count_list v (CHR ''.'') \<le> 1"
    and "1 \<le> d" and "d \<le> 20" and "length (fractional_part v) \<le> d"
  shows "toTokenMinimalUnit pw v d =
     Inr (parseBase (takeWhile (\<lambda>c. c \<noteq> CHR ''.'') v) * 10 ^ d
          + parseBase (fractional_part v) * 10 ^ (d - length (fractional_part v)))"
proof -
  let ?w = "takeWhile (\<lambda>c. c \<noteq> CHR ''.'') v"
  let ?f = "fractional_part v"
  let ?g = "or_zero (nth_opt (split_dot v) 1)"
  have wd: "list_all is_digit ?w" and fd: "list_all is_digit ?f"
    using unsigned_parts [OF assms(2,4)] by simp_all
  have w: "BN_of_string (or_zero (nth_opt (split_dot v) 0)) = parseBase ?w"
    using comps_one_dot(1) [OF assms(4)] wd
    by (simp add: or_zero_def BN_of_string_digits is_digit_zero) (simp add: parseBase_def BN_digit_zero)
  have f0: "?g = (if ?f = [] then ''0'' else ?f)"
    using comps_one_dot(2) [OF assms(4)] by (simp add: or_zero_def fractional_part_nodot)
  have len: "\<not> d < length ?g" using f0 assms(5,7) by simp
  have f: "BN_of_string (padEnd0 d ?g) = parseBase ?f * 10 ^ (d - length ?f)"
  proof (cases "?f = []")
    case True
    have "padEnd0 d ''0'' = replicate (Suc (d - 1)) (CHR ''0'')" by (simp add: padEnd0_eq)
    then have "padEnd0 d ''0'' = replicate d (CHR ''0'')" using assms(5) by simp
    then show ?thesis
      using True f0 by (simp add: BN_of_string_digits [OF zeros_digits] parseBase_zeros parseBase_Nil)
  next
    case False
    have "list_all is_digit (?f @ replicate (d - length ?f) (CHR ''0''))"
      using fd zeros_digits by simp
    then show ?thesis
      using False f0 by (simp add: padEnd0_eq BN_of_string_digits parseBase_append parseBase_zeros)
  qed
  show ?thesis
    using toTokenMinimalUnit_unsigned [OF assms(1,2), of pw d] assms(3,4) len f
    by (simp add: length_split_dot w toBN_pow10 [OF assms(6)])
qed

theorem toTokenMinimalUnit_value_witness:
  "\<forall>pw. toTokenMinimalUnit pw ''1.5'' 18 = Inr 1500000000000000000"
proof
  fix pw
  show "toTokenMinimalUnit pw ''1.5'' 18 = Inr 1500000000000000000"
    using toTokenMinimalUnit_value [where pw = pw and v = "''1.5''" and d = 18]
    by (simp add: is_digit_def fractional_part_def parseBase_def BN_digit_def)
qed

text \<open>The amount zero prints as \<open>"0"\<close> at every decimal count up to 20.\<close>

theorem fromTokenMinimalUnit_zero: "d \<le> 20 \<Longrightarrow> fromTokenMinimalUnit pw 0 d = Inr ''0''"
  using fromTokenMinimalUnit_nonneg [where pw = pw and a = 0 and d = d]
  by (simp add: BN_toString_def nat_to_dec.simps digit_char_def)

theorem fromTokenMinimalUnit_zero_witness: "\<forall>pw. fromTokenMinimalUnit pw 0 18 = Inr ''0''"
  using fromTokenMinimalUnit_zero [where d = 18] by simp

text \<open>
  The fraction \<open>fromTokenMinimalUnit\<close> emits where the base is the power of ten: for an
  amount \<open>a \<ge> 0\<close> and a decimal count \<open>d \<le> 20\<close>, the result is the decimal numeral
  of \<open>a div 10^d\<close>, followed, unless \<open>a mod 10^d\<close> is zero, by a decimal point and the
  remainder padded with zeros on the left to \<open>d\<close> digits and stripped of its trailing
  zeros. So 1234567890000000000 at 18 decimals is \<open>"1.23456789"\<close>.
\<close>

theorem fromTokenMinimalUnit_fraction:
  assumes "0 \<le> a" and "d \<le> 20"
  shows "fromTokenMinimalUnit pw a d =
     Inr (BN_toString (a div 10 ^ d) @
          (if a mod 10 ^ d = 0 then [] else CHR ''.'' # spec_fraction a d))"
  using fromTokenMinimalUnit_base [where pw = pw and a = a and d = d] assms
  by (simp add: toBN_pow10 spec_fraction_def)

theorem fromTokenMinimalUnit_fraction_witness:
  "\<forall>pw. fromTokenMinimalUnit pw 1234567890000000000 18 = Inr ''1.23456789''"
proof
  fix pw
  have "spec_fraction 1234567890000000000 18 = ''23456789''"
    by (simp add: spec_fraction_def zero_pad_left_padStart0 padStart0.simps nat_to_dec.simps
        digit_char_def strip_trailing_zeros_def)
  then show "fromTokenMinimalUnit pw 1234567890000000000 18 = Inr ''1.23456789''"
    using fromTokenMinimalUnit_fraction [where pw = pw and a = 1234567890000000000 and d = 18]
    by (simp add: BN_toString_def nat_to_dec.simps digit_char_def)
qed

end
